theory Spec2Isabelle
  imports Complex_Main
begin

section \<open>The fits package: a shallow embedding\<close>

text \<open>
  The Go package \<^verbatim>\<open>fits\<close> decodes a FITS stream into a list of units (HDUs). The
  embedding follows the source function by function. Go's \<^verbatim>\<open>int\<close> is taken to be the
  64-bit type of the usual platforms; bytes and the characters of Go strings are
  \<^typ>\<open>char\<close>. \<^verbatim>\<open>processString\<close> copies the bytes of its input: the source ranges over
  runes and would write U+FFFD for a byte that is not valid UTF-8, which changes the
  decoded text of such input only, not where the quotes are. A run-time panic is a value of the type \<open>failure\<close>; an \<^verbatim>\<open>error\<close>
  returned by a function is a value of the type \<open>error\<close>.
\<close>

subsection \<open>Failures, errors and machine integers\<close>

datatype failure =
    Panic string  \<comment> \<open>a run-time panic, with a description of its cause\<close>
  | Hang          \<comment> \<open>the loop of \<^verbatim>\<open>Reader.Read\<close> cannot make progress\<close>
  | NotModelled   \<comment> \<open>a library behaviour outside the modelled fragment of \<^verbatim>\<open>fmt\<close>\<close>

datatype error =
    EOF               \<comment> \<open>\<^verbatim>\<open>io.EOF\<close>\<close>
  | Errorf string     \<comment> \<open>\<^verbatim>\<open>fmt.Errorf(...)\<close>, with the formatted message\<close>

definition wrap64 :: "int \<Rightarrow> int" where
  "wrap64 x = (x + 2 ^ 63) mod 2 ^ 64 - 2 ^ 63"

subsection \<open>Library routines: \<^verbatim>\<open>strings\<close>, \<^verbatim>\<open>strconv\<close>, \<^verbatim>\<open>fmt\<close>\<close>

abbreviation quote :: char where
  "quote \<equiv> CHR 0x27"

text \<open>
  White space, as \<^verbatim>\<open>unicode.IsSpace\<close> defines it, in UTF-8: the six ASCII characters
  (\<open>is_space\<close>), U+0085 and U+00A0 (two bytes, \<open>is_space2\<close>), and U+1680, U+2000 to
  U+200A, U+2028, U+2029, U+202F, U+205F and U+3000 (three bytes, \<open>is_space3\<close>).
  \<open>strip_space rv s\<close> cuts the leading white space runes of \<open>s\<close>; with \<open>rv\<close> the string is
  read backwards, each rune with its bytes in reverse order. \<^verbatim>\<open>strings.TrimSpace\<close> cuts
  the leading white space runes and then the trailing ones; a trailing rune is white space
  exactly when the string ends with one of these encodings.
\<close>

definition is_space :: "char \<Rightarrow> bool" where
  "is_space c = (c = CHR '' '' \<or> c = CHR 0x09 \<or> c = CHR 0x0A \<or> c = CHR 0x0B
      \<or> c = CHR 0x0C \<or> c = CHR 0x0D)"

definition is_space2 :: "char \<Rightarrow> char \<Rightarrow> bool" where
  "is_space2 c1 c2 = (c1 = CHR 0xC2 \<and> (c2 = CHR 0x85 \<or> c2 = CHR 0xA0))"

definition is_space3 :: "char \<Rightarrow> char \<Rightarrow> char \<Rightarrow> bool" where
  "is_space3 c1 c2 c3 =
     ((c1 = CHR 0xE1 \<and> c2 = CHR 0x9A \<and> c3 = CHR 0x80)
      \<or> (c1 = CHR 0xE2 \<and> c2 = CHR 0x80
          \<and> ((0x80 \<le> (of_char c3 :: int) \<and> (of_char c3 :: int) \<le> 0x8A)
              \<or> c3 = CHR 0xA8 \<or> c3 = CHR 0xA9 \<or> c3 = CHR 0xAF))
      \<or> (c1 = CHR 0xE2 \<and> c2 = CHR 0x81 \<and> c3 = CHR 0x9F)
      \<or> (c1 = CHR 0xE3 \<and> c2 = CHR 0x80 \<and> c3 = CHR 0x80))"

fun strip_space :: "bool \<Rightarrow> string \<Rightarrow> string" where
  "strip_space rv [] = []"
| "strip_space rv (c1 # s) =
     (if is_space c1 then strip_space rv s
      else
        (case s of
           [] \<Rightarrow> c1 # s
         | c2 # s2 \<Rightarrow>
             if (if rv then is_space2 c2 c1 else is_space2 c1 c2) then strip_space rv s2
             else
               (case s2 of
                  [] \<Rightarrow> c1 # s
                | c3 # s3 \<Rightarrow>
                    if (if rv then is_space3 c3 c2 c1 else is_space3 c1 c2 c3)
                    then strip_space rv s3
                    else c1 # s)))"

definition TrimSpace :: "string \<Rightarrow> string" where
  "TrimSpace s = rev (strip_space True (rev (strip_space False s)))"

definition TrimRight_spaces :: "string \<Rightarrow> string" where
  "TrimRight_spaces s = rev (dropWhile (\<lambda>c. c = CHR '' '') (rev s))"

text \<open>\<^verbatim>\<open>strings.IndexAny(s, chars)\<close>: the first position of a character of \<open>chars\<close>;
  \<open>None\<close> stands for -1. \<^verbatim>\<open>strings.Index(s, "/")\<close> is the case of one character.\<close>

fun IndexAny :: "string \<Rightarrow> string \<Rightarrow> nat option" where
  "IndexAny [] chars = None"
| "IndexAny (c # s) chars =
     (if c \<in> set chars then Some 0
      else (case IndexAny s chars of None \<Rightarrow> None | Some j \<Rightarrow> Some (Suc j)))"

definition ContainsAny :: "string \<Rightarrow> string \<Rightarrow> bool" where
  "ContainsAny s chars = (IndexAny s chars \<noteq> None)"

text \<open>\<^verbatim>\<open>strings.Replace(s, "D", "E", 1)\<close>: the first \<open>D\<close> becomes \<open>E\<close>.\<close>

fun Replace_D_E :: "string \<Rightarrow> string" where
  "Replace_D_E [] = []"
| "Replace_D_E (c # s) = (if c = CHR ''D'' then CHR ''E'' # s else c # Replace_D_E s)"

definition is_digit :: "char \<Rightarrow> bool" where
  "is_digit c = (48 \<le> (of_char c :: int) \<and> (of_char c :: int) \<le> 57)"

definition digit_val :: "char \<Rightarrow> int" where
  "digit_val c = of_char c - 48"

fun digits_value :: "int \<Rightarrow> string \<Rightarrow> int" where
  "digits_value acc [] = acc"
| "digits_value acc (c # s) = digits_value (10 * acc + digit_val c) s"

text \<open>The value \<open>x\<close> of \<^verbatim>\<open>x, _ := strconv.ParseInt(s, 10, 32)\<close>: an optional sign and at
  least one decimal digit; 0 on a syntax error; the nearest 32-bit value when out of range.\<close>

definition ParseInt32 :: "string \<Rightarrow> int" where
  "ParseInt32 s =
     (let neg = (s \<noteq> [] \<and> hd s = CHR ''-'');
          body = (if s \<noteq> [] \<and> (hd s = CHR ''+'' \<or> hd s = CHR ''-'') then tl s else s)
      in if body = [] \<or> \<not> list_all is_digit body then 0
         else let u = digits_value 0 body
              in if neg then (if u > 2 ^ 31 then - (2 ^ 31) else - u)
                 else (if u \<ge> 2 ^ 31 then 2 ^ 31 - 1 else u))"

text \<open>The decimal digits of an integer that is not negative.\<close>

function show_digits :: "int \<Rightarrow> string" where
  "show_digits n = (if n < 10 then [char_of (48 + n)]
                    else show_digits (n div 10) @ [char_of (48 + n mod 10)])"
  by pat_completeness auto
termination
  by (relation "measure nat") auto

declare show_digits.simps [simp del]

definition show_int :: "int \<Rightarrow> string" where
  "show_int i = (if i < 0 then CHR ''-'' # show_digits (- i) else show_digits i)"

text \<open>\<^verbatim>\<open>Nth(prefix, n) = fmt.Sprintf("%s%d", prefix, n)\<close>.\<close>

definition Nth :: "string \<Rightarrow> int \<Rightarrow> string" where
  "Nth prefix n = prefix @ show_int n"

subsection \<open>Values of type \<^verbatim>\<open>interface{}\<close>\<close>

text \<open>
  A float64 or float32 is its value: a rational, an infinity, the negative zero or a NaN.
  The floats that the header parser obtains from \<^verbatim>\<open>strconv.ParseFloat\<close> and
  \<^verbatim>\<open>fmt.Sscanf\<close> are kept as the text handed to the routine: no function of the package
  looks at their numeric value.
\<close>

datatype float = NaN | PInf | NInf | NZero | Fin rat

datatype "value" =
    VNil                     \<comment> \<open>the nil interface\<close>
  | VInt int                 \<comment> \<open>\<^verbatim>\<open>int\<close>\<close>
  | VBool bool
  | VString string
  | VFloatText string        \<comment> \<open>the float64 that \<^verbatim>\<open>ParseFloat\<close> returns for the text\<close>
  | VComplexText string      \<comment> \<open>the complex128 that \<^verbatim>\<open>Sscanf(value, "(%f,%f)")\<close> fills\<close>
  | VUint8 int
  | VInt16 int
  | VInt32 int
  | VInt64 int
  | VFloat32 float
  | VFloat64 float
  | VComplex64 float float
  | VComplex128 float float
  | VSlice "value list"      \<comment> \<open>a slice of one of the element types above\<close>

text \<open>The two-valued type assertions \<^verbatim>\<open>x.(int)\<close> and \<^verbatim>\<open>x.(string)\<close> on a map entry.\<close>

fun as_int :: "value option \<Rightarrow> int option" where
  "as_int (Some (VInt n)) = Some n"
| "as_int _ = None"

fun as_string :: "value option \<Rightarrow> string option" where
  "as_string (Some (VString s)) = Some s"
| "as_string _ = None"

subsection \<open>The block reader\<close>

text \<open>
  The field \<open>reader\<close> is the underlying \<^verbatim>\<open>io.Reader\<close>: \<open>None\<close> is the nil interface
  (the readers that the table accessors build over the table bytes), \<open>Some src\<close> is a
  reader over the remaining bytes \<open>src\<close> that behaves as \<^verbatim>\<open>bytes.Reader\<close> and
  \<^verbatim>\<open>os.File\<close> do: a call copies as many bytes as fit and are left, and returns
  \<^verbatim>\<open>io.EOF\<close> with no bytes once the source is empty.
\<close>

record Reader =
  buf :: "char list"
  elem :: "char list"
  left :: int
  right :: int
  reader :: "char list option"
  eof :: bool

definition NewReader :: "char list \<Rightarrow> Reader" where
  "NewReader src = \<lparr> buf = replicate 2880 (CHR 0x00), elem = replicate 8 (CHR 0x00),
     left = 0, right = 0, reader = Some src, eof = False \<rparr>"

definition src_len :: "Reader \<Rightarrow> nat" where
  "src_len b = (case reader b of None \<Rightarrow> 0 | Some src \<Rightarrow> length src)"

text \<open>
  \<^verbatim>\<open>Reader.Read(p)\<close> with \<open>m = len(p)\<close>; \<open>acc\<close> is \<open>p[:n]\<close>, the bytes copied so far.
  The result is the bytes copied into \<open>p\<close> and the reader afterwards. With an empty
  \<open>buf\<close> and a source that is not empty the loop of the source never ends.
\<close>

function Read_loop :: "Reader \<Rightarrow> nat \<Rightarrow> char list \<Rightarrow> failure + (char list \<times> Reader)" where
  "Read_loop b m acc =
     (if left b < 0 \<or> right b < left b \<or> int (length (buf b)) < right b
      then Inl (Panic ''slice bounds out of range'')
      else
        let chunk = take (m - length acc) (take (nat (right b - left b)) (drop (nat (left b)) (buf b)));
            acc' = acc @ chunk;
            b1 = b\<lparr>left := left b + int (length chunk)\<rparr>
        in if length acc' = m then Inr (acc', b1)
           else (case reader b of
                   None \<Rightarrow> Inl (Panic ''nil pointer dereference'')
                 | Some src \<Rightarrow>
                     if src = [] then Inr (acc', b1\<lparr>right := 0, left := 0, eof := True\<rparr>)
                     else if buf b = [] then Inl Hang
                     else
                       let got = take (length (buf b)) src
                       in Read_loop (b1\<lparr>buf := got @ drop (length got) (buf b),
                                       right := int (length got), left := 0,
                                       reader := Some (drop (length got) src)\<rparr>) m acc'))"
  by pat_completeness auto
termination
  by (relation "measure (\<lambda>(b, m, acc). src_len b)") (auto simp: src_len_def)

declare Read_loop.simps [simp del]

definition Read :: "Reader \<Rightarrow> nat \<Rightarrow> failure + (char list \<times> Reader)" where
  "Read b m = Read_loop b m []"

definition IsEOF :: "Reader \<Rightarrow> bool" where
  "IsEOF b = eof b"

text \<open>\<^verbatim>\<open>NextPage\<close>: one call of the underlying reader into \<open>buf\<close>; the bytes of \<open>buf\<close>
  beyond those read keep their old contents.\<close>

definition NextPage :: "Reader \<Rightarrow> failure + (char list \<times> error option \<times> Reader)" where
  "NextPage b =
     (case reader b of
        None \<Rightarrow> Inl (Panic ''nil pointer dereference'')
      | Some src \<Rightarrow>
          if src = [] then Inr (buf b, Some EOF, b\<lparr>right := 0, left := 0\<rparr>)
          else
            let got = take (length (buf b)) src;
                buf' = got @ drop (length got) (buf b)
            in Inr (buf', None, b\<lparr>buf := buf', right := int (length got),
                                  left := int (length got),
                                  reader := Some (drop (length got) src)\<rparr>))"

subsection \<open>Header parsing\<close>

text \<open>
  \<^verbatim>\<open>processString\<close>: the scanner over the characters of \<open>s\<close>, with the states 0, 1
  and 2 of the source and the buffer \<open>out\<close>. Leaving the loop at the end of \<open>s\<close> is the
  error of the last line of the source, in every state.
\<close>

fun processString_loop :: "nat \<Rightarrow> string \<Rightarrow> string \<Rightarrow> error + string" where
  "processString_loop state [] out = Inl (Errorf ''String ends prematurely'')"
| "processString_loop state (c # s) out =
     (if state = 0 then
        (if c \<noteq> quote then Inl (Errorf ''String does not start with a quote'')
         else processString_loop 1 s out)
      else if state = 1 then
        (if c = quote then processString_loop 2 s out
         else processString_loop 1 s (out @ [c]))
      else if state = 2 then
        (if c = quote then processString_loop 1 s (out @ [c])
         else Inr (TrimRight_spaces out))
      else processString_loop state s out)"

definition processString :: "string \<Rightarrow> error + string" where
  "processString s = processString_loop 0 s []"

text \<open>The body of the loop over the 36 lines of a block: one card \<open>s\<close> of 80 characters
  and the map \<open>Keys\<close>, which is returned updated.\<close>

definition parse_card :: "string \<Rightarrow> (string \<rightharpoonup> value) \<Rightarrow> (string \<rightharpoonup> value)" where
  "parse_card line K =
     (let key = TrimSpace (take 8 line) in
      if take 2 (drop 8 line) \<noteq> ''= '' then K(key \<mapsto> VNil)
      else
        let s = TrimSpace (drop 10 line) in
        if s = [] then K(key \<mapsto> VNil)
        else
          let first = hd s in
          if first = quote then
            (case processString s of
               Inr v \<Rightarrow> K(key \<mapsto> VString v)
             | Inl err \<Rightarrow> K)
          else
            let s' = (case IndexAny s ''/'' of None \<Rightarrow> s | Some j \<Rightarrow> take j s);
                val = TrimSpace s'
            in if val = [] then K(key \<mapsto> VNil)
               else if is_digit first \<or> first = CHR ''+'' \<or> first = CHR ''-'' then
                 (if ContainsAny val ''.DE'' then K(key \<mapsto> VFloatText (Replace_D_E val))
                  else K(key \<mapsto> VInt (ParseInt32 val)))
               else if first = CHR ''T'' then K(key \<mapsto> VBool True)
               else if first = CHR ''F'' then K(key \<mapsto> VBool False)
               else if first = CHR ''('' then K(key \<mapsto> VComplexText val)
               else K)"

definition parse_lines :: "char list \<Rightarrow> (string \<rightharpoonup> value) \<Rightarrow> (string \<rightharpoonup> value)" where
  "parse_lines page K = foldl (\<lambda>K i. parse_card (take 80 (drop (i * 80) page)) K) K [0..<36]"

subsection \<open>Units\<close>

text \<open>
  The pixel buffer \<^verbatim>\<open>Data\<close> is typed by BITPIX; tables hold bytes. The function values
  of a unit are closures of a few fixed shapes, and the model names the shape: a
  \<open>FieldFunc\<close> of a table keeps the code, the repeat count and the byte offset \<open>c\<close> that
  its closure captured; \<open>pixfn\<close> and \<open>blankfn\<close> say which body \<^verbatim>\<open>loadData\<close> installed.
  \<open>None\<close> is the nil function.
\<close>

datatype data =
    NoData
  | Bytes "char list"
  | Int16s "int list"
  | Int32s "int list"
  | Int64s "int list"
  | Float32s "float list"
  | Float64s "float list"
  | Ints "int list"

datatype FieldFunc =
    BinField char int int     \<comment> \<open>code, repeat, c\<close>
  | TextField char int int    \<comment> \<open>code, repeat, c\<close>
  | NullField                 \<comment> \<open>\<^verbatim>\<open>func(int) interface{} { return nil }\<close>\<close>

datatype pixfn = PixZero | PixData

datatype blankfn = BlankEqual | BlankNaN | BlankFalse

record Unit =
  Keys :: "string \<rightharpoonup> value"
  Naxis :: "int list"
  Data :: data
  list :: "FieldFunc option list"
  fieldmap :: "string \<rightharpoonup> FieldFunc"  \<comment> \<open>the field \<^verbatim>\<open>fields\<close> of the source\<close>
  "class" :: string
  blank :: int
  At :: "pixfn option"
  IntAt :: "pixfn option"
  FloatAt :: "pixfn option"
  Blank :: "blankfn option"

definition new_Unit :: "(string \<rightharpoonup> value) \<Rightarrow> Unit" where
  "new_Unit K = \<lparr> Keys = K, Naxis = [], Data = NoData, list = [], fieldmap = Map.empty,
     class = [], blank = 0, At = None, IntAt = None, FloatAt = None, Blank = None \<rparr>"

text \<open>
  \<^verbatim>\<open>NewHeader\<close>: blocks are read until one leaves the key \<open>END\<close> in the map. Slicing
  the 36 cards out of a page shorter than 2880 bytes panics. At the end the axes are
  collected; the type assertions and \<^verbatim>\<open>make\<close> panic as written.
\<close>

definition collect_Naxis :: "(string \<rightharpoonup> value) \<Rightarrow> failure + int list" where
  "collect_Naxis K =
     (case K ''NAXIS'' of
        None \<Rightarrow> Inr []
      | Some item \<Rightarrow>
          (case item of
             VInt n \<Rightarrow>
               if n < 0 then Inl (Panic ''makeslice: len out of range'')
               else (case those (map (\<lambda>i. as_int (K (Nth ''NAXIS'' (int i + 1)))) [0..<nat n]) of
                       None \<Rightarrow> Inl (Panic ''interface conversion'')
                     | Some ns \<Rightarrow> Inr ns)
           | _ \<Rightarrow> Inl (Panic ''interface conversion'')))"

function NewHeader_loop :: "Reader \<Rightarrow> Unit \<Rightarrow> failure + (Unit \<times> error option \<times> Reader)" where
  "NewHeader_loop b h =
     (case NextPage b of
        Inl f \<Rightarrow> Inl f
      | Inr (page, err, b1) \<Rightarrow>
          (case err of
             Some e \<Rightarrow> Inr (h, Some e, b1)
           | None \<Rightarrow>
               if length page < 2880 then Inl (Panic ''slice bounds out of range'')
               else
                 let h1 = h\<lparr>Keys := parse_lines page (Keys h)\<rparr> in
                 if Keys h1 ''END'' \<noteq> None then
                   (case collect_Naxis (Keys h1) of
                      Inl f \<Rightarrow> Inl f
                    | Inr ns \<Rightarrow> Inr (h1\<lparr>Naxis := ns\<rparr>, None, b1))
                 else NewHeader_loop b1 h1))"
  by pat_completeness auto
termination
proof (relation "measure (\<lambda>(b, h). src_len b)")
  show "wf (measure (\<lambda>(b, h). src_len b))" by simp
next
  fix b :: Reader and h h1 :: Unit and x page y err b1
  assume np: "NextPage b = Inr x" and x: "(page, y) = x" and y: "(err, b1) = y"
    and e: "err = None" and len: "\<not> length page < 2880"
  from np x y e have "NextPage b = Inr (page, None, b1)" by simp
  then obtain src where src: "reader b = Some src" "src \<noteq> []"
    and page: "page = take (length (buf b)) src @ drop (length (take (length (buf b)) src)) (buf b)"
    and b1: "reader b1 = Some (drop (length (take (length (buf b)) src)) src)"
    by (auto simp: NextPage_def Let_def split: option.splits if_splits)
  from len page have "0 < length (buf b)" by (cases "buf b") auto
  with src have "length (drop (length (take (length (buf b)) src)) src) < length src"
    by (cases src) auto
  with src b1 have "src_len b1 < src_len b" by (simp add: src_len_def)
  then show "((b1, h1), (b, h)) \<in> measure (\<lambda>(b, h). src_len b)"
    by simp
qed

declare NewHeader_loop.simps [simp del]

definition NewHeader :: "Reader \<Rightarrow> failure + (Unit \<times> error option \<times> Reader)" where
  "NewHeader b = NewHeader_loop b (new_Unit Map.empty)"

subsection \<open>Typed reads\<close>

text \<open>
  The typed reads copy into \<open>elem[0:k]\<close> and decode the first \<open>k\<close> bytes of \<open>elem\<close>;
  when the source ends early the bytes not overwritten keep their old contents. The slice
  expression \<open>elem[0:k]\<close> panics on an \<open>elem\<close> shorter than \<open>k\<close>.
\<close>

definition read_elem :: "Reader \<Rightarrow> nat \<Rightarrow> failure + (char list \<times> Reader)" where
  "read_elem b k =
     (if length (elem b) < k then Inl (Panic ''slice bounds out of range'')
      else (case Read b k of
              Inl f \<Rightarrow> Inl f
            | Inr (got, b1) \<Rightarrow>
                let e = got @ drop (length got) (elem b)
                in Inr (take k e, b1\<lparr>elem := e\<rparr>)))"

definition be_uint :: "char list \<Rightarrow> int" where
  "be_uint bs = foldl (\<lambda>a c. a * 256 + of_char c) 0 bs"

definition to_signed :: "nat \<Rightarrow> int \<Rightarrow> int" where
  "to_signed w u = (if u \<ge> 2 ^ (w - 1) then u - 2 ^ w else u)"

text \<open>\<^verbatim>\<open>math.Float32frombits\<close> and \<^verbatim>\<open>math.Float64frombits\<close>: \<open>eb\<close> exponent bits and
  \<open>mb\<close> mantissa bits (8 and 23, 11 and 52). The value is \<open>sig * 2 ^ ex\<close> for the
  significand \<open>sig\<close> and the exponent \<open>ex\<close> of the encoding.\<close>

definition float_of_bits :: "nat \<Rightarrow> nat \<Rightarrow> int \<Rightarrow> float" where
  "float_of_bits eb mb u =
     (let s = u div 2 ^ (eb + mb);
          e = (u div 2 ^ mb) mod 2 ^ eb;
          m = u mod 2 ^ mb;
          bias = (2 :: nat) ^ (eb - 1) - 1
      in if e = 2 ^ eb - 1 then (if m \<noteq> 0 then NaN else if s = 1 then NInf else PInf)
         else if e = 0 \<and> m = 0 then (if s = 1 then NZero else Fin 0)
         else
           let sig = (if e = 0 then m else 2 ^ mb + m);
               ex = (if e = 0 then 1 else e) - int (bias + mb);
               mag = (if ex \<ge> 0 then of_int (sig * 2 ^ nat ex)
                      else of_int sig / of_int (2 ^ nat (- ex)))
           in Fin (if s = 1 then - mag else mag))"

definition ReadByte :: "Reader \<Rightarrow> failure + (int \<times> Reader)" where
  "ReadByte b = map_sum id (\<lambda>(e, b1). (be_uint e, b1)) (read_elem b 1)"

definition ReadBool :: "Reader \<Rightarrow> failure + (bool \<times> Reader)" where
  "ReadBool b = map_sum id (\<lambda>(e, b1). (be_uint e \<noteq> 0, b1)) (read_elem b 1)"

definition ReadInt16 :: "Reader \<Rightarrow> failure + (int \<times> Reader)" where
  "ReadInt16 b = map_sum id (\<lambda>(e, b1). (to_signed 16 (be_uint e), b1)) (read_elem b 2)"

definition ReadInt32 :: "Reader \<Rightarrow> failure + (int \<times> Reader)" where
  "ReadInt32 b = map_sum id (\<lambda>(e, b1). (to_signed 32 (be_uint e), b1)) (read_elem b 4)"

definition ReadInt64 :: "Reader \<Rightarrow> failure + (int \<times> Reader)" where
  "ReadInt64 b = map_sum id (\<lambda>(e, b1). (to_signed 64 (be_uint e), b1)) (read_elem b 8)"

definition ReadFloat32 :: "Reader \<Rightarrow> failure + (float \<times> Reader)" where
  "ReadFloat32 b = map_sum id (\<lambda>(e, b1). (float_of_bits 8 23 (be_uint e), b1)) (read_elem b 4)"

definition ReadFloat64 :: "Reader \<Rightarrow> failure + (float \<times> Reader)" where
  "ReadFloat64 b = map_sum id (\<lambda>(e, b1). (float_of_bits 11 52 (be_uint e), b1)) (read_elem b 8)"

text \<open>\<^verbatim>\<open>ReadString(n)\<close>: a fresh slice of \<open>n\<close> zero bytes (\<^verbatim>\<open>make\<close> panics on a negative
  \<open>n\<close>), filled by \<^verbatim>\<open>Read\<close>.\<close>

definition ReadString :: "Reader \<Rightarrow> int \<Rightarrow> failure + (string \<times> Reader)" where
  "ReadString b n =
     (if n < 0 then Inl (Panic ''makeslice: len out of range'')
      else map_sum id (\<lambda>(got, b1). (got @ replicate (nat n - length got) (CHR 0x00), b1))
             (Read b (nat n)))"

text \<open>A loop \<^verbatim>\<open>for i := 0; i < n; i++ { p[i] = rd() }\<close> over one of the typed reads.\<close>

fun read_many :: "(Reader \<Rightarrow> failure + ('a \<times> Reader)) \<Rightarrow> nat \<Rightarrow> Reader \<Rightarrow> failure + ('a list \<times> Reader)" where
  "read_many rd 0 b = Inr ([], b)"
| "read_many rd (Suc n) b =
     (case rd b of
        Inl f \<Rightarrow> Inl f
      | Inr (x, b1) \<Rightarrow>
          (case read_many rd n b1 of
             Inl f \<Rightarrow> Inl f
           | Inr (xs, b2) \<Rightarrow> Inr (x # xs, b2)))"

subsection \<open>Floats\<close>

text \<open>
  Comparison of float64 values: false when a side is NaN. The infinities are ranked at
  \<open>\<plusminus>2^1024\<close>, beyond every finite float64.
\<close>

definition MaxFloat64 :: rat where
  "MaxFloat64 = (2 ^ 53 - 1) * 2 ^ 971"

fun float_val :: "float \<Rightarrow> rat" where
  "float_val (Fin r) = r"
| "float_val NZero = 0"
| "float_val PInf = 2 ^ 1024"
| "float_val NInf = - (2 ^ 1024)"
| "float_val NaN = 0"

definition IsNaN :: "float \<Rightarrow> bool" where
  "IsNaN x = (x = NaN)"

definition float_less :: "float \<Rightarrow> float \<Rightarrow> bool" where
  "float_less x y = (\<not> IsNaN x \<and> \<not> IsNaN y \<and> float_val x < float_val y)"

function bit_length :: "int \<Rightarrow> nat" where
  "bit_length n = (if n \<le> 0 then 0 else Suc (bit_length (n div 2)))"
  by pat_completeness auto
termination
  by (relation "measure nat") auto

declare bit_length.simps [simp del]

text \<open>The conversion \<^verbatim>\<open>float64(x)\<close> of an integer: exact below \<open>2^53\<close>, rounded to 53
  significant bits (ties to even) above.\<close>

definition float64_of_int :: "int \<Rightarrow> float" where
  "float64_of_int x =
     (if \<bar>x\<bar> < 2 ^ 53 then Fin (of_int x)
      else
        let a = \<bar>x\<bar>;
            e = bit_length a - 53;
            q = a div 2 ^ e;
            r = a mod 2 ^ e;
            q' = (if 2 * r > 2 ^ e \<or> (2 * r = 2 ^ e \<and> odd q) then q + 1 else q)
        in Fin (of_int (sgn x * (q' * 2 ^ e))))"

subsection \<open>Verification of the mandatory keys\<close>

definition valid_BITPIX :: "int \<Rightarrow> bool" where
  "valid_BITPIX n = (n = 8 \<or> n = 16 \<or> n = 32 \<or> n = 64 \<or> n = -32 \<or> n = -64)"

text \<open>The loop \<^verbatim>\<open>for i := 1; i <= n; i++\<close> of both verifiers: the first \<open>i\<close> whose key
  \<open>NAXISi\<close> is not an integer.\<close>

definition missing_NAXIS :: "(string \<rightharpoonup> value) \<Rightarrow> int \<Rightarrow> string option" where
  "missing_NAXIS K n =
     (case filter (\<lambda>i. as_int (K (Nth ''NAXIS'' i)) = None) [1..n] of
        [] \<Rightarrow> None
      | i # _ \<Rightarrow> Some (Nth ''NAXIS'' i))"

definition verifyPrimary :: "Unit \<Rightarrow> error option" where
  "verifyPrimary h =
     (if Keys h ''SIMPLE'' = None then Some (Errorf ''No SIMPLE in the primary header'')
      else (case as_int (Keys h ''BITPIX'') of
              None \<Rightarrow> Some (Errorf ''No BITPIX in the primary header'')
            | Some n \<Rightarrow>
                if \<not> valid_BITPIX n then Some (Errorf ''Invalid BITPIX value'')
                else (case as_int (Keys h ''NAXIS'') of
                        None \<Rightarrow> Some (Errorf ''No NAXIS in the primary header'')
                      | Some n \<Rightarrow>
                          (case missing_NAXIS (Keys h) n of
                             Some s \<Rightarrow> Some (Errorf (''No '' @ s @ '' in the primary header''))
                           | None \<Rightarrow> None))))"

definition verifyExtension :: "Unit \<Rightarrow> error option" where
  "verifyExtension h =
     (case as_string (Keys h ''XTENSION'') of
        None \<Rightarrow> Some (Errorf ''No XTENSION in the extended header'')
      | Some xten \<Rightarrow>
      (case as_int (Keys h ''BITPIX'') of
        None \<Rightarrow> Some (Errorf ''No BITPIX in the extended header'')
      | Some n \<Rightarrow>
      if \<not> valid_BITPIX n then Some (Errorf ''Invalid BITPIX value'')
      else
      (case as_int (Keys h ''NAXIS'') of
        None \<Rightarrow> Some (Errorf ''No NAXIS in the extended header'')
      | Some naxis \<Rightarrow>
      (case missing_NAXIS (Keys h) naxis of
        Some s \<Rightarrow> Some (Errorf (''No '' @ s @ '' in the extended header''))
      | None \<Rightarrow>
      (case as_int (Keys h ''PCOUNT'') of
        None \<Rightarrow> Some (Errorf ''No PCOUNT in the extended header'')
      | Some pcount \<Rightarrow>
      (case as_int (Keys h ''GCOUNT'') of
        None \<Rightarrow> Some (Errorf ''No GCOUNT in the extended header'')
      | Some gcount \<Rightarrow>
      if xten = ''IMAGE'' then
        (if pcount \<noteq> 0 then Some (Errorf ''PCOUNT should be 0 in IMAGE header'') else None)
      else if xten = ''TABLE'' \<or> xten = ''BINTABLE'' then
        (if n \<noteq> 8 then Some (Errorf ''BITPIX should be 8 in TABLE/BINTABLE headers'')
         else if naxis \<noteq> 2 then Some (Errorf ''NAXIS should be 2 in TABLE/BINTABLE headers'')
         else None)
      else None))))))"

subsection \<open>Images\<close>

text \<open>
  \<^verbatim>\<open>index\<close>: the loop runs \<open>i\<close> from \<open>len(Naxis) - 1\<close> down to 0; \<open>index_loop N a k acc\<close>
  is the loop with \<open>k = i + 1\<close> iterations left. Reading \<open>a[i]\<close> panics when fewer
  coordinates than axes are passed. The arithmetic is that of the 64-bit \<^verbatim>\<open>int\<close>.
\<close>

fun index_loop :: "int list \<Rightarrow> int list \<Rightarrow> nat \<Rightarrow> int \<Rightarrow> int" where
  "index_loop N a 0 acc = acc"
| "index_loop N a (Suc i) acc = index_loop N a i (wrap64 (acc * N ! i + a ! i))"

definition index :: "Unit \<Rightarrow> int list \<Rightarrow> failure + int" where
  "index h a =
     (if length a < length (Naxis h) then Inl (Panic ''index out of range'')
      else Inr (index_loop (Naxis h) a (length (Naxis h)) 0))"

text \<open>The product \<^verbatim>\<open>prod\<close> of the axes, as \<^verbatim>\<open>loadData\<close> and \<^verbatim>\<open>Stats\<close> compute it.\<close>

definition prod_Naxis :: "Unit \<Rightarrow> int" where
  "prod_Naxis h = foldl (\<lambda>p x. wrap64 (p * x)) 1 (Naxis h)"

text \<open>
  \<^verbatim>\<open>loadData\<close>. A BITPIX outside the six cases leaves the data and the pixel accessors
  as they were. \<^verbatim>\<open>make\<close> panics on a negative length (and, on a real machine, on a
  length beyond what the allocator can give, which the model does not bound). The reads
  of the pixels never fail on a stream reader; at the end of the stream they yield what
  is left in \<open>elem\<close>.
\<close>

definition load_pixels :: "int \<Rightarrow> nat \<Rightarrow> Reader \<Rightarrow> failure + (data \<times> Reader)" where
  "load_pixels bitpix n b =
     (if bitpix = 8 then map_sum id (\<lambda>(d, b1). (Bytes (map char_of d), b1)) (read_many ReadByte n b)
      else if bitpix = 16 then map_sum id (\<lambda>(d, b1). (Int16s d, b1)) (read_many ReadInt16 n b)
      else if bitpix = 32 then map_sum id (\<lambda>(d, b1). (Int32s d, b1)) (read_many ReadInt32 n b)
      else if bitpix = 64 then map_sum id (\<lambda>(d, b1). (Int64s d, b1)) (read_many ReadInt64 n b)
      else if bitpix = -32 then map_sum id (\<lambda>(d, b1). (Float32s d, b1)) (read_many ReadFloat32 n b)
      else map_sum id (\<lambda>(d, b1). (Float64s d, b1)) (read_many ReadFloat64 n b))"

definition set_Blank :: "Unit \<Rightarrow> int \<Rightarrow> failure + Unit" where
  "set_Blank h bitpix =
     (case Keys h ''BLANK'' of
        Some v \<Rightarrow>
          if bitpix > 0 then
            (case v of
               VInt n \<Rightarrow> Inr (h\<lparr>blank := n, Blank := Some BlankEqual\<rparr>)
             | _ \<Rightarrow> Inl (Panic ''interface conversion''))
          else if bitpix < 0 then Inr (h\<lparr>Blank := Some BlankNaN\<rparr>)
          else Inr (h\<lparr>Blank := Some BlankFalse\<rparr>)
      | None \<Rightarrow>
          if bitpix < 0 then Inr (h\<lparr>Blank := Some BlankNaN\<rparr>)
          else Inr (h\<lparr>Blank := Some BlankFalse\<rparr>))"

definition loadData :: "Unit \<Rightarrow> Reader \<Rightarrow> failure + (error option \<times> Unit \<times> Reader)" where
  "loadData h b =
     (if Naxis h = [] then
        Inr (None, h\<lparr>Data := Ints [], IntAt := Some PixZero, FloatAt := Some PixZero\<rparr>, b)
      else
        let prod = prod_Naxis h in
        (case as_int (Keys h ''BITPIX'') of
           None \<Rightarrow> Inl (Panic ''interface conversion'')
         | Some bitpix \<Rightarrow>
             if valid_BITPIX bitpix then
               (if prod < 0 then Inl (Panic ''makeslice: len out of range'')
                else (case load_pixels bitpix (nat prod) b of
                        Inl f \<Rightarrow> Inl f
                      | Inr (d, b1) \<Rightarrow>
                          (case set_Blank (h\<lparr>Data := d, At := Some PixData, IntAt := Some PixData,
                                              FloatAt := Some PixData\<rparr>) bitpix of
                             Inl f \<Rightarrow> Inl f
                           | Inr h1 \<Rightarrow> Inr (None, h1, b1))))
             else (case set_Blank h bitpix of
                     Inl f \<Rightarrow> Inl f
                   | Inr h1 \<Rightarrow> Inr (None, h1, b))))"

text \<open>
  The pixel accessors. \<open>pixel\<close> is \<open>data[h.index(a...)]\<close> as a value of the element type;
  indexing outside the buffer panics. \<^verbatim>\<open>IntAt\<close> and \<^verbatim>\<open>FloatAt\<close> convert the element;
  the conversion to \<^verbatim>\<open>int64\<close> of a float that is not finite, or whose integer part does
  not fit 64 bits, is left open by the language and is not modelled.
\<close>

definition elem_at :: "data \<Rightarrow> nat \<Rightarrow> value option" where
  "elem_at d i =
     (case d of
        Bytes xs \<Rightarrow> (if i < length xs then Some (VUint8 (of_char (xs ! i))) else None)
      | Int16s xs \<Rightarrow> (if i < length xs then Some (VInt16 (xs ! i)) else None)
      | Int32s xs \<Rightarrow> (if i < length xs then Some (VInt32 (xs ! i)) else None)
      | Int64s xs \<Rightarrow> (if i < length xs then Some (VInt64 (xs ! i)) else None)
      | Float32s xs \<Rightarrow> (if i < length xs then Some (VFloat32 (xs ! i)) else None)
      | Float64s xs \<Rightarrow> (if i < length xs then Some (VFloat64 (xs ! i)) else None)
      | Ints xs \<Rightarrow> (if i < length xs then Some (VInt (xs ! i)) else None)
      | NoData \<Rightarrow> None)"

definition pixel :: "Unit \<Rightarrow> int list \<Rightarrow> failure + value" where
  "pixel h a =
     (case index h a of
        Inl f \<Rightarrow> Inl f
      | Inr i \<Rightarrow>
          if i < 0 then Inl (Panic ''index out of range'')
          else (case elem_at (Data h) (nat i) of
                  None \<Rightarrow> Inl (Panic ''index out of range'')
                | Some v \<Rightarrow> Inr v))"

definition call_At :: "Unit \<Rightarrow> int list \<Rightarrow> failure + value" where
  "call_At h a =
     (case At h of
        None \<Rightarrow> Inl (Panic ''nil pointer dereference'')
      | Some PixZero \<Rightarrow> Inr (VInt 0)
      | Some PixData \<Rightarrow> pixel h a)"

definition truncate64 :: "rat \<Rightarrow> failure + int" where
  "truncate64 r =
     (let t = sgn \<lfloor>r\<rfloor> * \<lfloor>\<bar>r\<bar>\<rfloor>
      in if - (2 ^ 63) \<le> t \<and> t < 2 ^ 63 then Inr t else Inl NotModelled)"

fun int64_of_value :: "value \<Rightarrow> failure + int" where
  "int64_of_value (VUint8 n) = Inr n"
| "int64_of_value (VInt16 n) = Inr n"
| "int64_of_value (VInt32 n) = Inr n"
| "int64_of_value (VInt64 n) = Inr n"
| "int64_of_value (VInt n) = Inr n"
| "int64_of_value (VFloat32 (Fin r)) = truncate64 r"
| "int64_of_value (VFloat64 (Fin r)) = truncate64 r"
| "int64_of_value (VFloat32 NZero) = Inr 0"
| "int64_of_value (VFloat64 NZero) = Inr 0"
| "int64_of_value v = Inl NotModelled"

fun float64_of_value :: "value \<Rightarrow> failure + float" where
  "float64_of_value (VUint8 n) = Inr (float64_of_int n)"
| "float64_of_value (VInt16 n) = Inr (float64_of_int n)"
| "float64_of_value (VInt32 n) = Inr (float64_of_int n)"
| "float64_of_value (VInt64 n) = Inr (float64_of_int n)"
| "float64_of_value (VInt n) = Inr (float64_of_int n)"
| "float64_of_value (VFloat32 x) = Inr x"
| "float64_of_value (VFloat64 x) = Inr x"
| "float64_of_value v = Inl NotModelled"

definition call_IntAt :: "Unit \<Rightarrow> int list \<Rightarrow> failure + int" where
  "call_IntAt h a =
     (case IntAt h of
        None \<Rightarrow> Inl (Panic ''nil pointer dereference'')
      | Some PixZero \<Rightarrow> Inr 0
      | Some PixData \<Rightarrow> (case pixel h a of Inl f \<Rightarrow> Inl f | Inr v \<Rightarrow> int64_of_value v))"

definition call_FloatAt :: "Unit \<Rightarrow> int list \<Rightarrow> failure + float" where
  "call_FloatAt h a =
     (case FloatAt h of
        None \<Rightarrow> Inl (Panic ''nil pointer dereference'')
      | Some PixZero \<Rightarrow> Inr (Fin 0)
      | Some PixData \<Rightarrow> (case pixel h a of Inl f \<Rightarrow> Inl f | Inr v \<Rightarrow> float64_of_value v))"

definition call_Blank :: "Unit \<Rightarrow> int list \<Rightarrow> failure + bool" where
  "call_Blank h a =
     (case Blank h of
        None \<Rightarrow> Inl (Panic ''nil pointer dereference'')
      | Some BlankEqual \<Rightarrow> map_sum id (\<lambda>x. x = blank h) (call_IntAt h a)
      | Some BlankNaN \<Rightarrow> map_sum id IsNaN (call_FloatAt h a)
      | Some BlankFalse \<Rightarrow> Inr False)"

definition HasImage :: "Unit \<Rightarrow> bool" where
  "HasImage h = ((class h = ''SIMPLE'' \<or> class h = ''IMAGE'') \<and> length (Naxis h) > 0 \<and> hd (Naxis h) > 0)"

definition HasTable :: "Unit \<Rightarrow> bool" where
  "HasTable h = (class h = ''TABLE'' \<or> class h = ''BINTABLE'')"

text \<open>
  \<^verbatim>\<open>Stats\<close>. Each of the six loops reads \<open>data[i]\<close> for \<open>i < prod\<close>, which panics past
  the end of the buffer, as does the type assertion on a buffer of another type (both
  only in an iteration, so not when \<open>prod\<close> is 0 or negative). The integer loops compare the element with the field \<open>blank\<close>; the float loops test for NaN.
\<close>

definition stats_int_step :: "int \<Rightarrow> (float \<times> float) \<Rightarrow> int \<Rightarrow> (float \<times> float)" where
  "stats_int_step blk mm x =
     (let mn = (if x \<noteq> blk \<and> float_less (float64_of_int x) (fst mm) then float64_of_int x else fst mm);
          mx = (if x \<noteq> blk \<and> float_less (snd mm) (float64_of_int x) then float64_of_int x else snd mm)
      in (mn, mx))"

definition stats_float_step :: "(float \<times> float) \<Rightarrow> float \<Rightarrow> (float \<times> float)" where
  "stats_float_step mm x =
     (let mn = (if \<not> IsNaN x \<and> float_less x (fst mm) then x else fst mm);
          mx = (if \<not> IsNaN x \<and> float_less (snd mm) x then x else snd mm)
      in (mn, mx))"

fun as_Bytes :: "data \<Rightarrow> char list option" where
  "as_Bytes (Bytes xs) = Some xs"
| "as_Bytes _ = None"

fun as_Int16s :: "data \<Rightarrow> int list option" where
  "as_Int16s (Int16s xs) = Some xs"
| "as_Int16s _ = None"

fun as_Int32s :: "data \<Rightarrow> int list option" where
  "as_Int32s (Int32s xs) = Some xs"
| "as_Int32s _ = None"

fun as_Int64s :: "data \<Rightarrow> int list option" where
  "as_Int64s (Int64s xs) = Some xs"
| "as_Int64s _ = None"

fun as_Float32s :: "data \<Rightarrow> float list option" where
  "as_Float32s (Float32s xs) = Some xs"
| "as_Float32s _ = None"

fun as_Float64s :: "data \<Rightarrow> float list option" where
  "as_Float64s (Float64s xs) = Some xs"
| "as_Float64s _ = None"

definition stats_loop :: "((float \<times> float) \<Rightarrow> 'a \<Rightarrow> (float \<times> float)) \<Rightarrow> 'a list option \<Rightarrow> int \<Rightarrow> failure + (float \<times> float)" where
  "stats_loop step d n =
     (if n \<le> 0 then Inr (Fin MaxFloat64, Fin (- MaxFloat64))
      else (case d of
              None \<Rightarrow> Inl (Panic ''interface conversion'')
            | Some xs \<Rightarrow>
                if int (length xs) < n then Inl (Panic ''index out of range'')
                else Inr (foldl step (Fin MaxFloat64, Fin (- MaxFloat64)) (take (nat n) xs))))"

definition Stats :: "Unit \<Rightarrow> failure + (float \<times> float)" where
  "Stats h =
     (let prod = prod_Naxis h in
      if prod = 1 then Inr (Fin 0, Fin 0)
      else
        (case as_int (Keys h ''BITPIX'') of
           None \<Rightarrow> Inl (Panic ''interface conversion'')
         | Some bitpix \<Rightarrow>
             if bitpix = 8 then
               stats_loop (stats_int_step (blank h)) (map_option (map of_char) (as_Bytes (Data h))) prod
             else if bitpix = 16 then
               stats_loop (stats_int_step (blank h)) (as_Int16s (Data h)) prod
             else if bitpix = 32 then
               stats_loop (stats_int_step (blank h)) (as_Int32s (Data h)) prod
             else if bitpix = 64 then
               stats_loop (stats_int_step (blank h)) (as_Int64s (Data h)) prod
             else if bitpix = -32 then
               stats_loop stats_float_step (as_Float32s (Data h)) prod
             else if bitpix = -64 then
               stats_loop stats_float_step (as_Float64s (Data h)) prod
             else Inr (Fin MaxFloat64, Fin (- MaxFloat64))))"

subsection \<open>Tables\<close>

text \<open>
  \<^verbatim>\<open>accessorBin\<close> returns the accessor, the default display format and the advanced byte
  cursor \<open>col\<close>. The accessor is the closure over the code, the repeat count and the cursor
  \<open>c\<close> at the time of the call. The codes X, P and Q panic; a code outside the
  \<^verbatim>\<open>switch\<close> leaves the helper \<open>f\<close> nil, the element length 0 and the format empty.
\<close>

definition bin_length :: "char \<Rightarrow> int" where
  "bin_length code =
     (if code = CHR ''A'' \<or> code = CHR ''B'' \<or> code = CHR ''L'' then 1
      else if code = CHR ''I'' then 2
      else if code = CHR ''J'' \<or> code = CHR ''E'' then 4
      else if code = CHR ''K'' \<or> code = CHR ''D'' \<or> code = CHR ''C'' then 8
      else if code = CHR ''M'' then 16
      else 0)"

definition bin_disp :: "char \<Rightarrow> int \<Rightarrow> string" where
  "bin_disp code repeat =
     (if code = CHR ''A'' then ''A'' @ show_int repeat
      else if code = CHR ''B'' then ''I3''
      else if code = CHR ''L'' then ''B1''
      else if code = CHR ''I'' then ''I6''
      else if code = CHR ''J'' then ''I11''
      else if code = CHR ''K'' then ''I20''
      else if code = CHR ''D'' \<or> code = CHR ''E'' \<or> code = CHR ''M'' \<or> code = CHR ''C'' then ''F14.7''
      else [])"

definition accessorBin :: "Unit \<Rightarrow> char \<Rightarrow> int \<Rightarrow> int \<Rightarrow> failure + (FieldFunc \<times> string \<times> int)" where
  "accessorBin h code repeat col =
     (if as_Bytes (Data h) = None then Inl (Panic ''interface conversion'')
      else if code = CHR ''X'' \<or> code = CHR ''P'' \<or> code = CHR ''Q''
        then Inl (Panic ''Binary table forms X, P and Q are not supported'')
      else Inr (BinField code repeat col, bin_disp code repeat,
                wrap64 (col + wrap64 (bin_length code * repeat))))"

definition accessorText :: "Unit \<Rightarrow> char \<Rightarrow> int \<Rightarrow> int \<Rightarrow> failure + (FieldFunc \<times> string)" where
  "accessorText h code repeat col =
     (if as_Bytes (Data h) = None then Inl (Panic ''interface conversion'')
      else if code = CHR ''A'' then Inr (TextField code repeat (wrap64 (col - 1)), ''A'' @ show_int repeat)
      else if code = CHR ''I'' then Inr (TextField code repeat (wrap64 (col - 1)), ''I'' @ show_int repeat)
      else if code = CHR ''D'' \<or> code = CHR ''E'' \<or> code = CHR ''F''
        then Inr (TextField code repeat (wrap64 (col - 1)), ''F14.7'')
      else Inl (Panic ''Unsupported TFORM in an Ascii table''))"

text \<open>The helper \<open>f\<close> of a binary accessor, run on its reader positioned at the cell.\<close>

definition scalar_or_slice :: "(Reader \<Rightarrow> failure + (value \<times> Reader)) \<Rightarrow> int \<Rightarrow> Reader \<Rightarrow> failure + value" where
  "scalar_or_slice rd repeat b =
     (if repeat = 1 then map_sum id fst (rd b)
      else if repeat < 0 then Inl (Panic ''makeslice: len out of range'')
      else map_sum id (\<lambda>(xs, b1). VSlice xs) (read_many rd (nat repeat) b))"

definition read_complex :: "(Reader \<Rightarrow> failure + (float \<times> Reader)) \<Rightarrow> (float \<Rightarrow> float \<Rightarrow> value) \<Rightarrow> Reader \<Rightarrow> failure + (value \<times> Reader)" where
  "read_complex rd mk b =
     (case rd b of
        Inl f \<Rightarrow> Inl f
      | Inr (x, b1) \<Rightarrow> (case rd b1 of Inl f \<Rightarrow> Inl f | Inr (y, b2) \<Rightarrow> Inr (mk x y, b2)))"

definition bin_decode :: "char \<Rightarrow> int \<Rightarrow> Reader \<Rightarrow> failure + value" where
  "bin_decode code repeat b =
     (if code = CHR ''A'' then map_sum id (\<lambda>(s, b1). VString s) (ReadString b repeat)
      else if code = CHR ''B'' then
        scalar_or_slice (\<lambda>b. map_sum id (\<lambda>(x, b1). (VUint8 x, b1)) (ReadByte b)) repeat b
      else if code = CHR ''L'' then
        scalar_or_slice (\<lambda>b. map_sum id (\<lambda>(x, b1). (VBool x, b1)) (ReadBool b)) repeat b
      else if code = CHR ''I'' then
        scalar_or_slice (\<lambda>b. map_sum id (\<lambda>(x, b1). (VInt16 x, b1)) (ReadInt16 b)) repeat b
      else if code = CHR ''J'' then
        scalar_or_slice (\<lambda>b. map_sum id (\<lambda>(x, b1). (VInt32 x, b1)) (ReadInt32 b)) repeat b
      else if code = CHR ''K'' then
        scalar_or_slice (\<lambda>b. map_sum id (\<lambda>(x, b1). (VInt64 x, b1)) (ReadInt64 b)) repeat b
      else if code = CHR ''D'' then
        scalar_or_slice (\<lambda>b. map_sum id (\<lambda>(x, b1). (VFloat64 x, b1)) (ReadFloat64 b)) repeat b
      else if code = CHR ''E'' then
        scalar_or_slice (\<lambda>b. map_sum id (\<lambda>(x, b1). (VFloat32 x, b1)) (ReadFloat32 b)) repeat b
      else if code = CHR ''M'' then
        scalar_or_slice (read_complex ReadFloat64 VComplex128) repeat b
      else if code = CHR ''C'' then
        scalar_or_slice (read_complex ReadFloat32 VComplex64) repeat b
      else Inl (Panic ''nil pointer dereference''))"

definition text_decode :: "char \<Rightarrow> int \<Rightarrow> Reader \<Rightarrow> failure + value" where
  "text_decode code repeat b =
     (if code = CHR ''A'' then map_sum id (\<lambda>(s, b1). VString s) (ReadString b repeat)
      else if code = CHR ''I'' then
        map_sum id (\<lambda>(s, b1). VInt (ParseInt32 (TrimSpace s))) (ReadString b repeat)
      else if code = CHR ''D'' \<or> code = CHR ''E'' \<or> code = CHR ''F'' then
        map_sum id (\<lambda>(s, b1). VFloatText (Replace_D_E (TrimSpace s))) (ReadString b repeat)
      else Inl (Panic ''nil pointer dereference''))"

text \<open>
  Calling a \<^verbatim>\<open>FieldFunc\<close> on a row. The closure reads \<open>h.Naxis[1]\<close> and \<open>h.Naxis[0]\<close> of
  the unit, and its own reader over the table bytes (the \<open>Data\<close> of the unit, as
  \<^verbatim>\<open>loadTable\<close> set it), with a nil underlying reader: reading past the table
  dereferences nil. A row out of range yields nil.
\<close>

definition call_FieldFunc :: "Unit \<Rightarrow> FieldFunc \<Rightarrow> int \<Rightarrow> failure + value" where
  "call_FieldFunc h fn row =
     (case fn of
        NullField \<Rightarrow> Inr VNil
      | BinField code repeat c \<Rightarrow>
          if row < 0 then Inr VNil
          else if length (Naxis h) < 2 then Inl (Panic ''index out of range'')
          else if row \<ge> Naxis h ! 1 then Inr VNil
          else (case as_Bytes (Data h) of
                  None \<Rightarrow> Inl (Panic ''interface conversion'')
                | Some d \<Rightarrow>
                    bin_decode code repeat
                      \<lparr> buf = d, elem = replicate 8 (CHR 0x00),
                        left = wrap64 (wrap64 (row * Naxis h ! 0) + c),
                        right = int (length d), reader = None, eof = False \<rparr>)
      | TextField code repeat c \<Rightarrow>
          if row < 0 then Inr VNil
          else if length (Naxis h) < 2 then Inl (Panic ''index out of range'')
          else if row \<ge> Naxis h ! 1 then Inr VNil
          else (case as_Bytes (Data h) of
                  None \<Rightarrow> Inl (Panic ''interface conversion'')
                | Some d \<Rightarrow>
                    text_decode code repeat
                      \<lparr> buf = d, elem = [],
                        left = wrap64 (wrap64 (row * Naxis h ! 0) + c),
                        right = int (length d), reader = None, eof = False \<rparr>))"

text \<open>
  \<^verbatim>\<open>loadTable\<close>. \<open>register\<close> is the tail of the loop body, from \<open>h.list[i] = fn\<close> on;
  \<open>loadTable_field\<close> is the whole body for the column \<open>i\<close> (0-based) and returns the
  error of a \<^verbatim>\<open>return\<close>, the unit and the cursor \<open>col\<close>; \<open>loadTable_loop\<close> runs the
  body for \<open>n\<close> columns from column \<open>i\<close>.
\<close>

definition register :: "nat \<Rightarrow> FieldFunc \<Rightarrow> string \<Rightarrow> Unit \<Rightarrow> failure + Unit" where
  "register i fn disp h =
     (let h1 = h\<lparr>list := (list h)[i := Some fn]\<rparr> in
      (case (case Keys h1 (Nth ''TTYPE'' (int i + 1)) of
               Some name \<Rightarrow>
                 (case name of
                    VString nm \<Rightarrow>
                      Inr (h1\<lparr>fieldmap := (fieldmap h1)(nm \<mapsto> fn),
                              Keys := (Keys h1)(''#'' @ nm \<mapsto> VInt (int i + 1))\<rparr>)
                  | _ \<Rightarrow> Inl (Panic ''interface conversion''))
             | None \<Rightarrow>
                 Inr (h1\<lparr>Keys := (Keys h1)(Nth ''TTYPE'' (int i + 1) \<mapsto> VString (Nth ''COL'' (int i + 1)))\<rparr>))
       of
         Inl f \<Rightarrow> Inl f
       | Inr h2 \<Rightarrow>
           if Keys h2 (Nth ''TDISP'' (int i + 1)) = None
           then Inr (h2\<lparr>Keys := (Keys h2)(Nth ''TDISP'' (int i + 1) \<mapsto> VString disp)\<rparr>)
           else Inr h2))"

definition loadTable_field :: "bool \<Rightarrow> nat \<Rightarrow> Unit \<Rightarrow> int \<Rightarrow> failure + (error option \<times> Unit \<times> int)" where
  "loadTable_field binary i h col =
     (case as_string (Keys h (Nth ''TFORM'' (int i + 1))) of
        None \<Rightarrow> Inl (Panic ''interface conversion'')
      | Some form \<Rightarrow>
          if binary then
            (case IndexAny form ''ABCDEIJKLMPQX'' of
               None \<Rightarrow> Inr (Some (Errorf ''TFROM has invalid format (binary)''), h, col)
             | Some j \<Rightarrow>
                 let repeat = (if j > 0 then ParseInt32 (take j form) else 1) in
                 if repeat > 0 then
                   (case accessorBin h (form ! j) repeat col of
                      Inl f \<Rightarrow> Inl f
                    | Inr (fn, disp, col') \<Rightarrow>
                        (case register i fn disp h of
                           Inl f \<Rightarrow> Inl f
                         | Inr h1 \<Rightarrow> Inr (None, h1, col')))
                 else Inr (None, h, col))
          else
            let j = (case IndexAny form ''.'' of None \<Rightarrow> length form | Some j \<Rightarrow> j) in
            if j < 1 then Inl (Panic ''slice bounds out of range'')
            else
              let r = ParseInt32 (drop 1 (take j form)) in
              (case as_int (Keys h (Nth ''TBCOL'' (int i + 1))) of
                 None \<Rightarrow> Inl (Panic ''interface conversion'')
               | Some col' \<Rightarrow>
                   (case accessorText h (form ! 0) r col' of
                      Inl f \<Rightarrow> Inl f
                    | Inr (fn, disp) \<Rightarrow>
                        (case register i fn disp h of
                           Inl f \<Rightarrow> Inl f
                         | Inr h1 \<Rightarrow> Inr (None, h1, col')))))"

fun loadTable_loop :: "bool \<Rightarrow> nat \<Rightarrow> nat \<Rightarrow> Unit \<Rightarrow> int \<Rightarrow> failure + (error option \<times> Unit)" where
  "loadTable_loop binary 0 i h col = Inr (None, h)"
| "loadTable_loop binary (Suc n) i h col =
     (case loadTable_field binary i h col of
        Inl f \<Rightarrow> Inl f
      | Inr (err, h1, col1) \<Rightarrow>
          (case err of
             Some e \<Rightarrow> Inr (Some e, h1)
           | None \<Rightarrow> loadTable_loop binary n (Suc i) h1 col1))"

definition loadTable :: "Unit \<Rightarrow> Reader \<Rightarrow> bool \<Rightarrow> failure + (error option \<times> Unit \<times> Reader)" where
  "loadTable h b binary =
     (case as_int (Keys h ''TFIELDS'') of
        None \<Rightarrow> Inl (Panic ''interface conversion'')
      | Some tfields \<Rightarrow>
          if tfields < 0 then Inl (Panic ''makeslice: len out of range'')
          else if length (Naxis h) < 2 then Inl (Panic ''index out of range'')
          else
            let size = wrap64 (Naxis h ! 0 * Naxis h ! 1) in
            if size < 0 then Inl (Panic ''makeslice: len out of range'')
            else (case Read b (nat size) of
                    Inl f \<Rightarrow> Inl f
                  | Inr (got, b1) \<Rightarrow>
                      let h1 = h\<lparr>list := replicate (nat tfields) None, fieldmap := Map.empty,
                                 Data := Bytes (got @ replicate (nat size - length got) (CHR 0x00))\<rparr>
                      in (case loadTable_loop binary (nat tfields) 0 h1 0 of
                            Inl f \<Rightarrow> Inl f
                          | Inr (err, h2) \<Rightarrow> Inr (err, h2, b1))))"

subsection \<open>\<^verbatim>\<open>Field\<close> and \<^verbatim>\<open>Format\<close>\<close>

text \<open>The argument \<open>col\<close> of type \<^verbatim>\<open>interface{}\<close>: an \<^verbatim>\<open>int\<close>, a \<^verbatim>\<open>string\<close> or anything
  else. The result of \<^verbatim>\<open>Field\<close> is a function value, \<open>None\<close> when it is nil.\<close>

datatype col = ColInt int | ColString string | ColOther

definition Field :: "Unit \<Rightarrow> col \<Rightarrow> FieldFunc option" where
  "Field h col =
     (case col of
        ColInt n \<Rightarrow>
          if n \<ge> 0 \<and> n < int (length (list h)) then list h ! nat n else Some NullField
      | ColString name \<Rightarrow>
          (case fieldmap h name of Some x \<Rightarrow> Some x | None \<Rightarrow> Some NullField)
      | ColOther \<Rightarrow> Some NullField)"

text \<open>
  \<^verbatim>\<open>fmt.Sscanf(d, "%c%d.%d", &code, &w, &m)\<close>: the variables that the scan reaches are
  set, the others keep their values. \<open>scan_int\<close> is the verb \<open>%d\<close>: white space is skipped
  (a newline in it is an error), then an optional sign and decimal digits that fit 64 bits.
\<close>

definition scan_int :: "string \<Rightarrow> (int \<times> string) option" where
  "scan_int s =
     (let s1 = strip_space False s;
          neg = (s1 \<noteq> [] \<and> hd s1 = CHR ''-'');
          s2 = (if s1 \<noteq> [] \<and> (hd s1 = CHR ''+'' \<or> hd s1 = CHR ''-'') then tl s1 else s1);
          ds = takeWhile is_digit s2;
          v = (if neg then - digits_value 0 ds else digits_value 0 ds)
      in if CHR 0x0A \<in> set (take (length s - length s1) s) \<or> ds = []
            \<or> v < - (2 ^ 63) \<or> v \<ge> 2 ^ 63 then None
         else Some (v, dropWhile is_digit s2))"

definition Sscanf_cdd :: "string \<Rightarrow> char \<times> int \<times> int \<Rightarrow> char \<times> int \<times> int" where
  "Sscanf_cdd d init =
     (case init of (code, w, m) \<Rightarrow>
        (case d of
           [] \<Rightarrow> (code, w, m)
         | c # r \<Rightarrow>
             (case scan_int r of
                None \<Rightarrow> (c, w, m)
              | Some (w', r1) \<Rightarrow>
                  (case r1 of
                     [] \<Rightarrow> (c, w', m)
                   | p # r2 \<Rightarrow>
                       if p \<noteq> CHR ''.'' then (c, w', m)
                       else (case scan_int r2 of
                               None \<Rightarrow> (c, w', m)
                             | Some (m', r3) \<Rightarrow> (c, w', m'))))))"

text \<open>The format string that \<^verbatim>\<open>Format\<close> builds from the display value \<open>disp\<close> (nil when
  the key is absent); the type assertion \<open>disp.(string)\<close> panics on another type.\<close>

definition format_of :: "value \<Rightarrow> failure + string" where
  "format_of disp =
     (if disp = VNil then Inr ''%v''
      else (case disp of
              VString d0 \<Rightarrow>
                let d = (if length d0 > 1 \<and> (d0 ! 1 = CHR ''N'' \<or> d0 ! 1 = CHR ''S'')
                         then d0 ! 0 # drop 2 d0 else d0)
                in (case Sscanf_cdd d (CHR 0x00, 14, -1) of (code, w, m) \<Rightarrow>
                  if code = CHR ''A'' then Inr (''%'' @ show_int w @ ''.'' @ show_int w @ ''s'')
                  else if code = CHR ''I'' then Inr (''%'' @ show_int w @ ''d'')
                  else if code = CHR ''B'' then Inr (''%'' @ show_int w @ ''b'')
                  else if code = CHR ''O'' then Inr (''%'' @ show_int w @ ''o'')
                  else if code = CHR ''Z'' then Inr (''%'' @ show_int w @ ''X'')
                  else if code = CHR ''F'' \<or> code = CHR ''D'' then
                    (if m \<noteq> -1 then Inr (''%'' @ show_int w @ ''.'' @ show_int m @ ''f'')
                     else Inr (''%'' @ show_int w @ ''f''))
                  else if code = CHR ''E'' then
                    (if m \<noteq> -1 then Inr (''%'' @ show_int w @ ''.'' @ show_int m @ ''e'')
                     else Inr (''%'' @ show_int w @ ''e''))
                  else if code = CHR ''G'' then
                    (if m \<noteq> -1 then Inr (''%'' @ show_int w @ ''.'' @ show_int m @ ''g'')
                     else Inr (''%'' @ show_int w @ ''g''))
                  else Inr ''%v'')
            | _ \<Rightarrow> Inl (Panic ''interface conversion'')))"

text \<open>
  \<^verbatim>\<open>fmt.Sprintf(format, v)\<close> with one operand, on the fragment modelled here: a format
  \<open>%[-][width][.precision]verb\<close> with the verb \<open>f\<close> on a float, \<open>d\<close> on an integer,
  \<open>s\<close> on a string, and the plain \<open>%v\<close> on an integer, a string, a boolean or nil. The
  verb \<open>f\<close> prints the exact decimal expansion rounded to the precision (6 by default),
  ties to even. \<open>None\<close> is any other combination.
\<close>

definition pad :: "bool \<Rightarrow> nat \<Rightarrow> string \<Rightarrow> string" where
  "pad lj w s =
     (if lj then s @ replicate (w - length s) (CHR '' '')
      else replicate (w - length s) (CHR '' '') @ s)"

definition fixed_digits :: "nat \<Rightarrow> rat \<Rightarrow> string" where
  "fixed_digits p a =
     (let scaled = a * 10 ^ p;
          q = \<lfloor>scaled\<rfloor>;
          rest = scaled - of_int q;
          q' = (if rest > 1 / 2 \<or> (rest = 1 / 2 \<and> odd q) then q + 1 else q);
          ds = show_digits q';
          ds' = replicate (p + 1 - length ds) (CHR ''0'') @ ds
      in if p = 0 then ds'
         else take (length ds' - p) ds' @ ''.'' @ drop (length ds' - p) ds')"

fun fmt_fixed :: "nat \<Rightarrow> float \<Rightarrow> string" where
  "fmt_fixed p NaN = ''NaN''"
| "fmt_fixed p PInf = ''+Inf''"
| "fmt_fixed p NInf = ''-Inf''"
| "fmt_fixed p NZero = CHR ''-'' # fixed_digits p 0"
| "fmt_fixed p (Fin r) = (if r < 0 then CHR ''-'' # fixed_digits p (- r) else fixed_digits p r)"

text \<open>The parts of a format: the flag \<open>-\<close>, the width, the precision and the verb. A width
  with a leading zero is the flag \<open>0\<close> and is not modelled.\<close>

definition parse_format :: "string \<Rightarrow> (bool \<times> nat option \<times> nat option \<times> char) option" where
  "parse_format fmt =
     (case fmt of
        [] \<Rightarrow> None
      | c # r \<Rightarrow>
          if c \<noteq> CHR ''%'' then None
          else
            let lj = (r \<noteq> [] \<and> hd r = CHR ''-'');
                r1 = (if lj then tl r else r);
                wd = takeWhile is_digit r1;
                r2 = dropWhile is_digit r1;
                dot = (r2 \<noteq> [] \<and> hd r2 = CHR ''.'');
                r3 = (if dot then tl r2 else r2);
                pd = takeWhile is_digit r3;
                r4 = dropWhile is_digit r3
            in if (wd \<noteq> [] \<and> hd wd = CHR ''0'') \<or> length r4 \<noteq> 1 then None
               else Some (lj,
                          if wd = [] then None else Some (nat (digits_value 0 wd)),
                          if dot then Some (nat (digits_value 0 pd)) else None,
                          hd r4))"

fun int_of_value :: "value \<Rightarrow> int option" where
  "int_of_value (VInt n) = Some n"
| "int_of_value (VUint8 n) = Some n"
| "int_of_value (VInt16 n) = Some n"
| "int_of_value (VInt32 n) = Some n"
| "int_of_value (VInt64 n) = Some n"
| "int_of_value v = None"

fun float_of_value :: "value \<Rightarrow> float option" where
  "float_of_value (VFloat32 x) = Some x"
| "float_of_value (VFloat64 x) = Some x"
| "float_of_value v = None"

definition Sprintf :: "string \<Rightarrow> value \<Rightarrow> string option" where
  "Sprintf fmt v =
     (case parse_format fmt of
        None \<Rightarrow> None
      | Some (lj, width, prec, verb) \<Rightarrow>
          let w = (case width of None \<Rightarrow> 0 | Some w \<Rightarrow> w) in
          if verb = CHR ''f'' then
            (case float_of_value v of
               None \<Rightarrow> None
             | Some x \<Rightarrow> Some (pad lj w (fmt_fixed (case prec of None \<Rightarrow> 6 | Some p \<Rightarrow> p) x)))
          else if verb = CHR ''d'' \<and> prec = None then
            (case int_of_value v of
               None \<Rightarrow> None
             | Some n \<Rightarrow> Some (pad lj w (show_int n)))
          else if verb = CHR ''s'' then
            (case v of
               VString s \<Rightarrow> Some (pad lj w (case prec of None \<Rightarrow> s | Some p \<Rightarrow> take p s))
             | _ \<Rightarrow> None)
          else if verb = CHR ''v'' \<and> width = None \<and> prec = None \<and> \<not> lj then
            (case v of
               VNil \<Rightarrow> Some ''<nil>''
             | VString s \<Rightarrow> Some s
             | VBool t \<Rightarrow> Some (if t then ''true'' else ''false'')
             | _ \<Rightarrow> map_option show_int (int_of_value v))
          else None)"

text \<open>
  \<^verbatim>\<open>Format\<close>. \<open>lookup_col\<close> is the \<^verbatim>\<open>switch\<close> on the type of \<open>col\<close>: it yields the
  accessor \<open>fn\<close> (nil when not found) and the display value \<open>disp\<close>. In the string case the
  type assertion \<open>n.(int)\<close> on the entry of the key \<open>#name\<close> panics when that entry is
  missing or not an integer.
\<close>

definition key_or_nil :: "(string \<rightharpoonup> value) \<Rightarrow> string \<Rightarrow> value" where
  "key_or_nil K k = (case K k of None \<Rightarrow> VNil | Some v \<Rightarrow> v)"

definition lookup_col :: "Unit \<Rightarrow> col \<Rightarrow> failure + (FieldFunc option \<times> value)" where
  "lookup_col h col =
     (case col of
        ColInt n \<Rightarrow>
          if n \<ge> 0 \<and> n < int (length (list h))
          then Inr (list h ! nat n, key_or_nil (Keys h) (Nth ''TDISP'' (n + 1)))
          else Inr (None, VNil)
      | ColString name \<Rightarrow>
          (case as_int (Keys h (''#'' @ name)) of
             None \<Rightarrow> Inl (Panic ''interface conversion'')
           | Some n \<Rightarrow> Inr (fieldmap h name, key_or_nil (Keys h) (Nth ''TDISP'' n)))
      | ColOther \<Rightarrow> Inr (None, VNil))"

definition Format :: "Unit \<Rightarrow> col \<Rightarrow> int \<Rightarrow> failure + string" where
  "Format h col row =
     (case lookup_col h col of
        Inl f \<Rightarrow> Inl f
      | Inr (fn, disp) \<Rightarrow>
          (case fn of
             None \<Rightarrow> Inr []
           | Some fn \<Rightarrow>
               (case format_of disp of
                  Inl f \<Rightarrow> Inl f
                | Inr fmt \<Rightarrow>
                    (case call_FieldFunc h fn row of
                       Inl f \<Rightarrow> Inl f
                     | Inr v \<Rightarrow>
                         (case Sprintf fmt v of
                            None \<Rightarrow> Inl NotModelled
                          | Some s \<Rightarrow> Inr s)))))"

subsection \<open>\<^verbatim>\<open>Open\<close>\<close>

text \<open>
  The loop of \<^verbatim>\<open>Open\<close> ends when the stream does: a header that is read takes bytes
  from the source, and the loaders give none back.
\<close>

lemma NextPage_less:
  "NextPage b = Inr (page, None, b1) \<Longrightarrow> \<not> length page < 2880 \<Longrightarrow> src_len b1 < src_len b"
proof -
  assume np: "NextPage b = Inr (page, None, b1)" and len: "\<not> length page < 2880"
  from np obtain src where src: "reader b = Some src" "src \<noteq> []"
    and page: "page = take (length (buf b)) src @ drop (length (take (length (buf b)) src)) (buf b)"
    and b1: "reader b1 = Some (drop (length (take (length (buf b)) src)) src)"
    by (auto simp: NextPage_def Let_def split: option.splits if_splits)
  from len page have "0 < length (buf b)" by (cases "buf b") auto
  with src have "length (drop (length (take (length (buf b)) src)) src) < length src"
    by (cases src) auto
  with src b1 show "src_len b1 < src_len b" by (simp add: src_len_def)
qed

lemma NewHeader_loop_less:
  "NewHeader_loop b h = Inr (h', None, b') \<Longrightarrow> src_len b' < src_len b"
proof (induction b h rule: NewHeader_loop.induct)
  case (1 b h)
  from "1.prems" obtain page b1 where np: "NextPage b = Inr (page, None, b1)"
    and len: "\<not> length page < 2880"
    by (subst (asm) NewHeader_loop.simps) (auto split: sum.splits option.splits if_splits)
  have less: "src_len b1 < src_len b" using NextPage_less [OF np len] .
  show ?case
  proof (cases "parse_lines page (Keys h) ''END'' \<noteq> None")
    case True
    with "1.prems" np len have "b' = b1"
      by (subst (asm) NewHeader_loop.simps) (auto simp: Let_def split: sum.splits)
    with less show ?thesis by simp
  next
    case False
    with "1.prems" np len
    have "NewHeader_loop b1 (h\<lparr>Keys := parse_lines page (Keys h)\<rparr>) = Inr (h', None, b')"
      by (subst (asm) NewHeader_loop.simps) (simp add: Let_def)
    with "1.IH" [of "(page, None, b1)" page "(None, b1)" None b1 "h\<lparr>Keys := parse_lines page (Keys h)\<rparr>"] np len False
    have "src_len b' < src_len b1" by simp
    with less show ?thesis by simp
  qed
qed

lemma Read_loop_le:
  "Read_loop b m acc = Inr (got, b') \<Longrightarrow> src_len b' \<le> src_len b"
proof (induction b m acc rule: Read_loop.induct)
  case (1 b m acc)
  define chunk where "chunk = take (m - length acc) (take (nat (right b - left b)) (drop (nat (left b)) (buf b)))"
  define b1 where "b1 = b\<lparr>left := left b + int (length chunk)\<rparr>"
  have c0: "\<not> (left b < 0 \<or> right b < left b \<or> int (length (buf b)) < right b)"
    using "1.prems" by (subst (asm) Read_loop.simps) (auto split: if_splits)
  show ?case
  proof (cases "length (acc @ chunk) = m")
    case True
    with "1.prems" c0 have "b' = b1"
      by (subst (asm) Read_loop.simps) (simp add: Let_def chunk_def b1_def)
    then show ?thesis by (simp add: b1_def src_len_def)
  next
    case False
    with "1.prems" c0 obtain src where src: "reader b = Some src"
      by (subst (asm) Read_loop.simps) (auto simp: Let_def chunk_def split: option.splits)
    show ?thesis
    proof (cases "src = []")
      case True
      with "1.prems" c0 False src have "b' = b1\<lparr>right := 0, left := 0, eof := True\<rparr>"
        by (subst (asm) Read_loop.simps) (simp add: Let_def chunk_def b1_def)
      then show ?thesis by (simp add: b1_def src_len_def)
    next
      case ne: False
      with "1.prems" c0 False src have bne: "buf b \<noteq> []"
        by (subst (asm) Read_loop.simps) (auto simp: Let_def chunk_def split: if_splits)
      define got' where "got' = take (length (buf b)) src"
      define b2 where "b2 = b1\<lparr>buf := got' @ drop (length got') (buf b),
         right := int (length got'), left := 0, reader := Some (drop (length got') src)\<rparr>"
      from "1.prems" c0 False src ne bne have rec: "Read_loop b2 m (acc @ chunk) = Inr (got, b')"
        by (subst (asm) Read_loop.simps) (simp add: Let_def chunk_def b1_def b2_def got'_def)
      have "src_len b' \<le> src_len b2"
        using "1.IH" [OF c0 chunk_def refl b1_def False src ne bne got'_def] rec
        by (simp add: b2_def)
      also have "src_len b2 \<le> src_len b" by (simp add: b2_def src_len_def src)
      finally show ?thesis .
    qed
  qed
qed


lemma read_elem_le:
  "read_elem b k = Inr (e, b') \<Longrightarrow> src_len b' \<le> src_len b"
  by (auto simp: read_elem_def Read_def Let_def src_len_def split: if_splits sum.splits
      dest!: Read_loop_le)

lemma typed_read_le:
  "ReadByte b = Inr (x1, b') \<Longrightarrow> src_len b' \<le> src_len b"
  "ReadInt16 b = Inr (x2, b') \<Longrightarrow> src_len b' \<le> src_len b"
  "ReadInt32 b = Inr (x2, b') \<Longrightarrow> src_len b' \<le> src_len b"
  "ReadInt64 b = Inr (x2, b') \<Longrightarrow> src_len b' \<le> src_len b"
  "ReadFloat32 b = Inr (x3, b') \<Longrightarrow> src_len b' \<le> src_len b"
  "ReadFloat64 b = Inr (x3, b') \<Longrightarrow> src_len b' \<le> src_len b"
  by (cases "read_elem b 1"; cases "read_elem b 2"; cases "read_elem b 4"; cases "read_elem b 8";
      auto simp: ReadByte_def ReadInt16_def ReadInt32_def ReadInt64_def ReadFloat32_def
        ReadFloat64_def dest: read_elem_le)+

lemma read_many_le:
  assumes rd: "\<And>b x b'. rd b = Inr (x, b') \<Longrightarrow> src_len b' \<le> src_len b"
  shows "read_many rd n b = Inr (xs, b') \<Longrightarrow> src_len b' \<le> src_len b"
proof (induction n arbitrary: b xs)
  case 0
  then show ?case by simp
next
  case (Suc n)
  then show ?case
    by (auto split: sum.splits dest!: rd) fastforce
qed

lemma load_pixels_le:
  assumes "load_pixels bitpix n b = Inr (d, b')"
  shows "src_len b' \<le> src_len b"
proof -
  have 1: "read_many ReadByte n b = Inr (xs, b') \<Longrightarrow> ?thesis" for xs
    by (erule read_many_le [rotated]) (erule typed_read_le)
  have 2: "read_many ReadInt16 n b = Inr (ys, b') \<Longrightarrow> ?thesis" for ys
    by (erule read_many_le [rotated]) (erule typed_read_le)
  have 3: "read_many ReadInt32 n b = Inr (ys, b') \<Longrightarrow> ?thesis" for ys
    by (erule read_many_le [rotated]) (erule typed_read_le)
  have 4: "read_many ReadInt64 n b = Inr (ys, b') \<Longrightarrow> ?thesis" for ys
    by (erule read_many_le [rotated]) (erule typed_read_le)
  have 5: "read_many ReadFloat32 n b = Inr (zs, b') \<Longrightarrow> ?thesis" for zs
    by (erule read_many_le [rotated]) (erule typed_read_le)
  have 6: "read_many ReadFloat64 n b = Inr (zs, b') \<Longrightarrow> ?thesis" for zs
    by (erule read_many_le [rotated]) (erule typed_read_le)
  from assms show ?thesis
    unfolding load_pixels_def
    by (auto split: if_splits sum.splits simp: map_sum_def dest: 1 2 3 4 5 6)
qed

lemma loadData_le:
  "loadData h b = Inr (e, h', b') \<Longrightarrow> src_len b' \<le> src_len b"
  by (auto simp: loadData_def Let_def split: if_splits option.splits sum.splits
      dest: load_pixels_le)

lemma loadTable_le:
  "loadTable h b binary = Inr (e, h', b') \<Longrightarrow> src_len b' \<le> src_len b"
  by (auto simp: loadTable_def Let_def Read_def split: if_splits option.splits sum.splits
      dest: Read_loop_le)

text \<open>
  The loop \<^verbatim>\<open>for !b.IsEOF() { ... }\<close> over the reader \<open>b\<close> and the units \<open>fits\<close>
  collected so far; the result is the final \<open>fits\<close>. The unit \<open>h\<close> is appended as soon
  as its header is read, and the statements after that update it in place. A
  \<^verbatim>\<open>break\<close> inside the \<^verbatim>\<open>switch\<close> on \<open>xten\<close> leaves the \<^verbatim>\<open>switch\<close> only, so the loop goes
  on after an error of \<^verbatim>\<open>loadData\<close> or \<^verbatim>\<open>loadTable\<close> there.
\<close>

function Open_loop :: "Reader \<Rightarrow> Unit list \<Rightarrow> failure + Unit list" where
  "Open_loop b fits =
     (if IsEOF b then Inr fits
      else
        (case NewHeader b of
           Inl f \<Rightarrow> Inl f
         | Inr (h, err, b1) \<Rightarrow>
             (case err of
                Some e \<Rightarrow> Inr fits
              | None \<Rightarrow>
                  if Keys h ''SIMPLE'' \<noteq> None then
                    (case verifyPrimary h of
                       Some e \<Rightarrow> Inr (fits @ [h])
                     | None \<Rightarrow>
                         if length (Naxis h) > 0 then
                           (if hd (Naxis h) = 0 then Inr (fits @ [h\<lparr>class := ''SIMPLE''\<rparr>])
                            else
                              (case loadData (h\<lparr>class := ''SIMPLE''\<rparr>) b1 of
                                 Inl f \<Rightarrow> Inl f
                               | Inr (err, h2, b2) \<Rightarrow>
                                   (case err of
                                      Some e \<Rightarrow> Inr (fits @ [h2])
                                    | None \<Rightarrow> Open_loop b2 (fits @ [h2]))))
                         else Open_loop b1 (fits @ [h\<lparr>class := ''SIMPLE''\<rparr>]))
                  else
                    (case as_string (Keys h ''XTENSION'') of
                       None \<Rightarrow> Inr (fits @ [h])
                     | Some xten \<Rightarrow>
                         (case verifyExtension h of
                            Some e \<Rightarrow> Inr (fits @ [h])
                          | None \<Rightarrow>
                              if xten = ''IMAGE'' then
                                (if length (Naxis h) > 0 then
                                   (case loadData (h\<lparr>class := xten\<rparr>) b1 of
                                      Inl f \<Rightarrow> Inl f
                                    | Inr (err, h2, b2) \<Rightarrow> Open_loop b2 (fits @ [h2]))
                                 else Open_loop b1 (fits @ [h\<lparr>class := xten\<rparr>]))
                              else if xten = ''TABLE'' then
                                (case loadTable (h\<lparr>class := xten\<rparr>) b1 False of
                                   Inl f \<Rightarrow> Inl f
                                 | Inr (err, h2, b2) \<Rightarrow> Open_loop b2 (fits @ [h2]))
                              else if xten = ''BINTABLE'' then
                                (case loadTable (h\<lparr>class := xten\<rparr>) b1 True of
                                   Inl f \<Rightarrow> Inl f
                                 | Inr (err, h2, b2) \<Rightarrow> Open_loop b2 (fits @ [h2]))
                              else Open_loop b1 (fits @ [h\<lparr>class := xten\<rparr>]))))))"
  by pat_completeness auto
termination
proof (relation "measure (\<lambda>(b, fits). src_len b)", goal_cases)
  case 1
  show ?case by simp
next
  case (2 b fits ba x y xa ya bb xb yb xc yc)
  then have "NewHeader b = Inr (x, None, ya)" "loadData (x\<lparr>class := ''SIMPLE''\<rparr>) ya = Inr (xb, xc, yc)"
    by auto
  then show ?case
    by (auto simp: NewHeader_def dest!: NewHeader_loop_less loadData_le)
next
  case (3 b fits ba x y xa ya)
  then have "NewHeader b = Inr (x, None, ya)" by auto
  then show ?case by (auto simp: NewHeader_def dest!: NewHeader_loop_less)
next
  case (4 b fits ba x y xa ya x2 bb xb yb xc yc)
  then have "NewHeader b = Inr (x, None, ya)" "loadData (x\<lparr>class := x2\<rparr>) ya = Inr (xb, xc, yc)"
    by auto
  then show ?case
    by (auto simp: NewHeader_def dest!: NewHeader_loop_less loadData_le)
next
  case (5 b fits ba x y xa ya x2)
  then have "NewHeader b = Inr (x, None, ya)" by auto
  then show ?case by (auto simp: NewHeader_def dest!: NewHeader_loop_less)
next
  case (6 b fits ba x y xa ya x2 bb xb yb xc yc)
  then have "NewHeader b = Inr (x, None, ya)" "loadTable (x\<lparr>class := x2\<rparr>) ya False = Inr (xb, xc, yc)"
    by auto
  then show ?case
    by (auto simp: NewHeader_def dest!: NewHeader_loop_less loadTable_le)
next
  case (7 b fits ba x y xa ya x2 bb xb yb xc yc)
  then have "NewHeader b = Inr (x, None, ya)" "loadTable (x\<lparr>class := x2\<rparr>) ya True = Inr (xb, xc, yc)"
    by auto
  then show ?case
    by (auto simp: NewHeader_def dest!: NewHeader_loop_less loadTable_le)
next
  case (8 b fits ba x y xa ya x2)
  then have "NewHeader b = Inr (x, None, ya)" by auto
  then show ?case by (auto simp: NewHeader_def dest!: NewHeader_loop_less)
qed

declare Open_loop.simps [simp del]

text \<open>
  \<^verbatim>\<open>Open\<close> returns \<open>fits\<close> and its named result \<open>err\<close>. The loop body declares its own
  \<open>err\<close> (\<^verbatim>\<open>h, err := b.NewHeader()\<close>), and every assignment to \<open>err\<close> in the body is to
  that variable: the named result is never assigned and is nil at the \<^verbatim>\<open>return\<close>.
\<close>

definition Open :: "char list \<Rightarrow> failure + (Unit list \<times> error option)" where
  "Open src = map_sum id (\<lambda>fits. (fits, None)) (Open_loop (NewReader src) [])"

section \<open>Specification-side definitions and example inputs\<close>

text \<open>
  The offset of the specification, in its words: a right fold over the pairs of an axis
  extent and a coordinate, \<open>acc * n + c\<close>, from 0, on unbounded integers. A tuple of
  coordinates is in range when it has one coordinate per axis, each within its extent.
\<close>

definition PixelIndex :: "int list \<Rightarrow> int list \<Rightarrow> int" where
  "PixelIndex N a = foldr (\<lambda>(n, c) acc. acc * n + c) (zip N a) 0"

definition in_range :: "int list \<Rightarrow> int list \<Rightarrow> bool" where
  "in_range N a = (length a = length N \<and> list_all (\<lambda>(n, c). 0 \<le> c \<and> c < n) (zip N a))"

text \<open>The flat values of an image: the elements of its buffer, in the order of the buffer.\<close>

definition flat_values :: "data \<Rightarrow> value list" where
  "flat_values d =
     (case d of
        NoData \<Rightarrow> []
      | Bytes xs \<Rightarrow> map (\<lambda>c. VUint8 (of_char c)) xs
      | Int16s xs \<Rightarrow> map VInt16 xs
      | Int32s xs \<Rightarrow> map VInt32 xs
      | Int64s xs \<Rightarrow> map VInt64 xs
      | Float32s xs \<Rightarrow> map VFloat32 xs
      | Float64s xs \<Rightarrow> map VFloat64 xs
      | Ints xs \<Rightarrow> map VInt xs)"


text \<open>
  A reader whose buffer holds the bytes \<open>bs\<close>, all unread, over a source at its end: the
  state in which a loader finds the reader when the data section is in the current block.
\<close>

definition buffered :: "char list \<Rightarrow> Reader" where
  "buffered bs = \<lparr> buf = bs, elem = replicate 8 (CHR 0x00), left = 0, right = int (length bs),
     reader = Some [], eof = False \<rparr>"

text \<open>The header of an 8-bit image of 3 by 2 pixels, and its flat values 1 to 6.\<close>

definition image_3x2_header :: Unit where
  "image_3x2_header = (new_Unit [''BITPIX'' \<mapsto> VInt 8])\<lparr>Naxis := [3, 2], class := ''SIMPLE''\<rparr>"

definition image_3x2_bytes :: "char list" where
  "image_3x2_bytes = map char_of [1, 2, 3, 4, 5, 6 :: int]"

text \<open>
  The header of a binary table of one row and one column \<open>FLUX\<close> of type \<open>D\<close> with the
  display format \<open>F10.4\<close>, and the eight bytes of the float64 nearest to 987.654321.
\<close>

definition flux_table_header :: Unit where
  "flux_table_header = (new_Unit [''TFIELDS'' \<mapsto> VInt 1, ''TFORM1'' \<mapsto> VString ''D'',
      ''TTYPE1'' \<mapsto> VString ''FLUX'', ''TDISP1'' \<mapsto> VString ''F10.4''])\<lparr>Naxis := [8, 1], class := ''BINTABLE''\<rparr>"

definition flux_bytes :: "char list" where
  "flux_bytes = map char_of [64, 142, 221, 60, 12, 166, 0, 176 :: int]"

text \<open>
  The table of the package documentation: the column \<open>FLUX\<close> has the type \<open>E\<close> and the
  display format \<open>F10.4\<close>. The four bytes are the float32 nearest to 987.654321.
\<close>

definition flux_E_table_header :: Unit where
  "flux_E_table_header = (new_Unit [''TFIELDS'' \<mapsto> VInt 1, ''TFORM1'' \<mapsto> VString ''E'',
      ''TTYPE1'' \<mapsto> VString ''FLUX'', ''TDISP1'' \<mapsto> VString ''F10.4''])\<lparr>Naxis := [4, 1], class := ''BINTABLE''\<rparr>"

definition flux_E_bytes :: "char list" where
  "flux_E_bytes = map char_of [68, 118, 233, 224 :: int]"

text \<open>
  A quoted string that is still open when its literal ends, in the words of the
  specification's scanner: \<open>still_open body\<close> holds when, reading the characters \<open>body\<close>
  after the opening quote, the scanner is collecting at the end, that is, every quote of
  \<open>body\<close> is the first or the second of a doubled quote.
\<close>

fun still_open :: "string \<Rightarrow> bool" where
  "still_open [] = True"
| "still_open [c] = (c \<noteq> quote)"
| "still_open (c # d # s) = (if c \<noteq> quote then still_open (d # s) else d = quote \<and> still_open s)"


text \<open>
  Header blocks for the examples: a card is padded with spaces to 80 characters, and the
  cards of a block are followed by blank cards up to the 36 of a block. \<open>parse_cards\<close>
  is the loop over the lines of \<^verbatim>\<open>NewHeader\<close> run on these cards, from the empty map.
\<close>

definition pad80 :: "string \<Rightarrow> string" where
  "pad80 s = s @ replicate (80 - length s) (CHR '' '')"

definition header_cards :: "string list \<Rightarrow> string list" where
  "header_cards cs = map pad80 cs @ replicate (36 - length cs) (replicate 80 (CHR '' ''))"

definition header_block :: "string list \<Rightarrow> char list" where
  "header_block cs = concat (header_cards cs)"

definition parse_cards :: "string list \<Rightarrow> (string \<rightharpoonup> value)" where
  "parse_cards cs = foldl (\<lambda>K c. parse_card c K) Map.empty (header_cards cs)"

definition well_formed_cards :: "string list \<Rightarrow> bool" where
  "well_formed_cards cs = (length cs \<le> 36 \<and> list_all (\<lambda>c. length c \<le> 80) cs)"

text \<open>
  Card sequences: a primary header without BITPIX; a complete primary header without
  data; a header with neither SIMPLE nor XTENSION; a header with a string left open; and
  the header of a binary table whose \<open>TFORM1\<close> has no type code.
\<close>

definition bad_primary_cards :: "string list" where
  "bad_primary_cards = [''SIMPLE  =                    T'', ''END'']"

definition minimal_primary_cards :: "string list" where
  "minimal_primary_cards = [''SIMPLE  =                    T'', ''BITPIX  =                    8'',
     ''NAXIS   =                    0'', ''END'']"

definition unknown_cards :: "string list" where
  "unknown_cards = [''FOO     =                    1'', ''END'']"

definition open_string_cards :: "string list" where
  "open_string_cards = [''SIMPLE  =                    T'', ''OBJECT  = '' @ [quote] @ ''M31'', ''END'']"

definition bad_table_cards :: "string list" where
  "bad_table_cards = [''XTENSION= '' @ [quote] @ ''BINTABLE'' @ [quote] @ '' / binary table'',
     ''BITPIX  =                    8'', ''NAXIS   =                    2'',
     ''NAXIS1  =                    0'', ''NAXIS2  =                    0'',
     ''PCOUNT  =                    0'', ''GCOUNT  =                    1'',
     ''TFIELDS =                    1'',
     ''TFORM1  = '' @ [quote] @ ''123'' @ [quote] @ '' / no type code'', ''END'']"

text \<open>
  The layout of a binary table. \<open>tform h k\<close> is the value of the key \<open>TFORM\<close> of the
  column \<open>k\<close> (counted from 0), \<open>ttype h k\<close> its name; \<open>field_repeat\<close> and \<open>field_code\<close>
  are the repeat count and the type code that \<^verbatim>\<open>loadTable\<close> reads from such a value
  (the code is the first character among \<open>ABCDEIJKLMPQX\<close>, the repeat count the number
  before it, 1 when there is none). \<open>element_size\<close> is the size in bytes of an element
  of each code, as the specification lists the codes: a character, a boolean and an
  unsigned 8-bit integer (A, L, B); a 16-bit integer (I); a 32-bit integer and a 32-bit
  float (J, E); a 64-bit integer, a 64-bit float and a pair of 32-bit floats (K, D, C); a
  pair of 64-bit floats (M). \<open>declared_offset\<close> is the offset of the specification, in
  its words: the sum of \<open>repeat * element_size\<close> over the fields before the field.
  \<open>row_offset\<close> is that sum over the fields with a positive repeat count only.
\<close>

definition tform :: "Unit \<Rightarrow> nat \<Rightarrow> string" where
  "tform h k = (case as_string (Keys h (Nth ''TFORM'' (int k + 1))) of Some f \<Rightarrow> f | None \<Rightarrow> [])"

definition field_repeat :: "string \<Rightarrow> int" where
  "field_repeat form =
     (case IndexAny form ''ABCDEIJKLMPQX'' of
        None \<Rightarrow> 0
      | Some j \<Rightarrow> if j > 0 then ParseInt32 (take j form) else 1)"

definition field_code :: "string \<Rightarrow> char" where
  "field_code form = (case IndexAny form ''ABCDEIJKLMPQX'' of None \<Rightarrow> CHR 0x00 | Some j \<Rightarrow> form ! j)"

definition element_size :: "char \<Rightarrow> int" where
  "element_size code =
     (if code \<in> set ''ALB'' then 1
      else if code = CHR ''I'' then 2
      else if code \<in> set ''JE'' then 4
      else if code \<in> set ''KDC'' then 8
      else if code = CHR ''M'' then 16
      else 0)"

definition declared_offset :: "Unit \<Rightarrow> nat \<Rightarrow> int" where
  "declared_offset h i =
     sum_list (map (\<lambda>k. field_repeat (tform h k) * element_size (field_code (tform h k))) [0..<i])"

definition field_bytes :: "string \<Rightarrow> int" where
  "field_bytes form =
     (if field_repeat form > 0 then field_repeat form * element_size (field_code form) else 0)"

definition row_offset :: "Unit \<Rightarrow> nat \<Rightarrow> int" where
  "row_offset h i = sum_list (map (\<lambda>k. field_bytes (tform h k)) [0..<i])"

definition ttype :: "Unit \<Rightarrow> nat \<Rightarrow> string option" where
  "ttype h k = as_string (Keys h (Nth ''TTYPE'' (int k + 1)))"

text \<open>
  Binary tables of one row: a field \<open>3I\<close> followed by a field \<open>1J\<close>, with the values
  1, 2, 3 and 7; a field \<open>-5I\<close> followed by a field \<open>1J\<close>; a field \<open>0J\<close> named \<open>X\<close>
  followed by a field \<open>1J\<close> named \<open>X\<close> as well; and the same with the second field named
  \<open>Y\<close>. The last three have the four bytes of the value 7 as their row.
\<close>

definition two_field_header :: Unit where
  "two_field_header = (new_Unit [''TFIELDS'' \<mapsto> VInt 2, ''TFORM1'' \<mapsto> VString ''3I'',
      ''TFORM2'' \<mapsto> VString ''1J''])\<lparr>Naxis := [10, 1], class := ''BINTABLE''\<rparr>"

definition two_field_bytes :: "char list" where
  "two_field_bytes = map char_of [0, 1, 0, 2, 0, 3, 0, 0, 0, 7 :: int]"

definition negative_repeat_header :: Unit where
  "negative_repeat_header = (new_Unit [''TFIELDS'' \<mapsto> VInt 2, ''TFORM1'' \<mapsto> VString ''-5I'',
      ''TFORM2'' \<mapsto> VString ''1J''])\<lparr>Naxis := [4, 1], class := ''BINTABLE''\<rparr>"

definition duplicate_name_header :: Unit where
  "duplicate_name_header = (new_Unit [''TFIELDS'' \<mapsto> VInt 2, ''TFORM1'' \<mapsto> VString ''0J'',
      ''TTYPE1'' \<mapsto> VString ''X'', ''TFORM2'' \<mapsto> VString ''1J'',
      ''TTYPE2'' \<mapsto> VString ''X''])\<lparr>Naxis := [4, 1], class := ''BINTABLE''\<rparr>"

definition zero_repeat_header :: Unit where
  "zero_repeat_header = (new_Unit [''TFIELDS'' \<mapsto> VInt 2, ''TFORM1'' \<mapsto> VString ''0J'',
      ''TTYPE1'' \<mapsto> VString ''X'', ''TFORM2'' \<mapsto> VString ''1J'',
      ''TTYPE2'' \<mapsto> VString ''Y''])\<lparr>Naxis := [4, 1], class := ''BINTABLE''\<rparr>"

definition one_field_bytes :: "char list" where
  "one_field_bytes = map char_of [0, 0, 0, 7 :: int]"

text \<open>
  Images of 8 bits without the key \<open>BLANK\<close>: three pixels 0, 5 and 7, and one pixel 5.
\<close>

definition image_3x1_header :: Unit where
  "image_3x1_header = (new_Unit [''BITPIX'' \<mapsto> VInt 8])\<lparr>Naxis := [3, 1], class := ''SIMPLE''\<rparr>"

definition image_3x1_bytes :: "char list" where
  "image_3x1_bytes = map char_of [0, 5, 7 :: int]"

definition image_1x1_header :: Unit where
  "image_1x1_header = (new_Unit [''BITPIX'' \<mapsto> VInt 8])\<lparr>Naxis := [1, 1], class := ''SIMPLE''\<rparr>"

definition image_1x1_bytes :: "char list" where
  "image_1x1_bytes = map char_of [5 :: int]"

section \<open>Properties\<close>

subsection \<open>The pixel index\<close>

lemma wrap64_id: "- (2 ^ 63) \<le> x \<Longrightarrow> x < 2 ^ 63 \<Longrightarrow> wrap64 x = x"
  by (simp add: wrap64_def)

lemma PixelIndex_Cons: "PixelIndex (n # N) (c # a) = PixelIndex N a * n + c"
  by (simp add: PixelIndex_def)

lemma PixelIndex_bounds:
  "in_range N a \<Longrightarrow> 0 \<le> PixelIndex N a \<and> PixelIndex N a < prod_list N"
proof (induction N arbitrary: a)
  case Nil
  then show ?case by (simp add: PixelIndex_def in_range_def)
next
  case (Cons n N)
  then obtain c a' where a: "a = c # a'" by (cases a) (auto simp: in_range_def)
  with Cons.prems have c: "0 \<le> c" "c < n" and r: "in_range N a'"
    by (auto simp: in_range_def)
  from Cons.IH [OF r] have p: "0 \<le> PixelIndex N a'" "PixelIndex N a' + 1 \<le> prod_list N"
    by auto
  have "PixelIndex N a' * n + c < (PixelIndex N a' + 1) * n"
    using c by (simp add: algebra_simps)
  also have "\<dots> \<le> prod_list N * n"
    using p c by (intro mult_right_mono) auto
  finally show ?case using p c by (simp add: a PixelIndex_Cons mult.commute)
qed

lemma in_range_drop: "in_range N a \<Longrightarrow> in_range (drop k N) (drop k a)"
  by (auto simp: in_range_def drop_zip [symmetric] list_all_iff dest: in_set_dropD)

lemma in_range_ge1: "in_range N a \<Longrightarrow> list_all (\<lambda>n. 1 \<le> n) N"
proof (induction N arbitrary: a)
  case Nil
  then show ?case by simp
next
  case (Cons n N)
  then obtain c a' where "a = c # a'" by (cases a) (auto simp: in_range_def)
  with Cons show ?case by (auto simp: in_range_def)
qed

lemma wrap64_range: "- (2 ^ 63) \<le> wrap64 x \<and> wrap64 x < 2 ^ 63"
  by (simp add: wrap64_def)

lemma PixelIndex_drop_le:
  "in_range N a \<Longrightarrow> PixelIndex (drop k N) (drop k a) \<le> PixelIndex N a"
proof (induction N arbitrary: a k)
  case Nil
  then show ?case by (simp add: PixelIndex_def)
next
  case (Cons n N)
  then obtain c a' where a: "a = c # a'" by (cases a) (auto simp: in_range_def)
  with Cons.prems have c: "0 \<le> c" "c < n" and r: "in_range N a'"
    by (auto simp: in_range_def)
  show ?case
  proof (cases k)
    case 0
    then show ?thesis by simp
  next
    case (Suc j)
    have p: "0 \<le> PixelIndex N a'" using PixelIndex_bounds [OF r] by simp
    have "PixelIndex (drop j N) (drop j a') \<le> PixelIndex N a'" using Cons.IH [OF r] .
    also have "\<dots> \<le> PixelIndex N a' * n" using p c by (simp add: mult_le_cancel_left1)
    also have "\<dots> \<le> PixelIndex N a' * n + c" using c by simp
    finally show ?thesis by (simp add: Suc a PixelIndex_Cons)
  qed
qed

lemma index_loop_fold:
  assumes r: "in_range N a" and p: "PixelIndex N a < 2 ^ 63"
  shows "k \<le> length N \<Longrightarrow> index_loop N a k (PixelIndex (drop k N) (drop k a)) = PixelIndex N a"
proof (induction k)
  case 0
  then show ?case by simp
next
  case (Suc k)
  from r have len: "length a = length N" by (simp add: in_range_def)
  from Suc.prems have k: "k < length N" by simp
  have dN: "drop k N = N ! k # drop (Suc k) N" using k by (simp add: Cons_nth_drop_Suc)
  have da: "drop k a = a ! k # drop (Suc k) a" using k len by (simp add: Cons_nth_drop_Suc)
  have step: "PixelIndex (drop k N) (drop k a) = PixelIndex (drop (Suc k) N) (drop (Suc k) a) * N ! k + a ! k"
    by (simp add: dN da PixelIndex_Cons)
  have "0 \<le> PixelIndex (drop k N) (drop k a)"
    using PixelIndex_bounds [OF in_range_drop [OF r, of k]] by auto
  moreover have "PixelIndex (drop k N) (drop k a) \<le> PixelIndex N a"
    using PixelIndex_drop_le [OF r] .
  ultimately have "wrap64 (PixelIndex (drop k N) (drop k a)) = PixelIndex (drop k N) (drop k a)"
    using p by (intro wrap64_id) auto
  then show ?case using Suc.IH k by (simp add: step)
qed

lemma index_loop_range:
  "acc < 2 ^ 63 \<Longrightarrow> index_loop N a k acc < 2 ^ 63"
proof (induction k arbitrary: acc)
  case 0
  then show ?case by simp
next
  case (Suc k)
  have "wrap64 (acc * N ! k + a ! k) < 2 ^ 63" using wrap64_range by blast
  from Suc.IH [OF this] show ?case by simp
qed

lemma index_fold_iff:
  assumes r: "in_range (Naxis h) a"
  shows "index h a = Inr (PixelIndex (Naxis h) a) \<longleftrightarrow> PixelIndex (Naxis h) a < 2 ^ 63"
proof
  assume "index h a = Inr (PixelIndex (Naxis h) a)"
  with r have "index_loop (Naxis h) a (length (Naxis h)) 0 = PixelIndex (Naxis h) a"
    by (simp add: index_def in_range_def)
  moreover have "index_loop (Naxis h) a (length (Naxis h)) 0 < 2 ^ 63"
    by (rule index_loop_range) simp
  ultimately show "PixelIndex (Naxis h) a < 2 ^ 63" by simp
next
  assume p: "PixelIndex (Naxis h) a < 2 ^ 63"
  show "index h a = Inr (PixelIndex (Naxis h) a)"
    using index_loop_fold [OF r p, of "length (Naxis h)"] r
    by (simp add: index_def in_range_def PixelIndex_def)
qed

lemma one_le_mult: "1 \<le> (a :: int) \<Longrightarrow> 1 \<le> b \<Longrightarrow> 1 \<le> a * b"
  using mult_mono [of 1 a 1 b] by simp

lemma one_le_prod_list: "list_all (\<lambda>n. 1 \<le> n) N \<Longrightarrow> 1 \<le> prod_list (N :: int list)"
  by (induction N) (auto intro: one_le_mult)

lemma foldl_wrap_prod:
  "list_all (\<lambda>n. 1 \<le> n) N \<Longrightarrow> 1 \<le> acc \<Longrightarrow> acc * prod_list N < 2 ^ 63 \<Longrightarrow>
   foldl (\<lambda>p x. wrap64 (p * x)) acc N = acc * prod_list N"
proof (induction N arbitrary: acc)
  case Nil
  then show ?case by simp
next
  case (Cons n N)
  from Cons.prems have n: "1 \<le> n" and N: "list_all (\<lambda>n. 1 \<le> n) N" by auto
  from N have pos: "1 \<le> prod_list N" by (rule one_le_prod_list)
  have an: "1 \<le> acc * n" using Cons.prems(2) n by (rule one_le_mult)
  have "acc * n \<le> acc * n * prod_list N" using an pos by (simp add: mult_le_cancel_left1)
  with Cons.prems(3) have lt: "acc * n < 2 ^ 63" by (simp add: mult.assoc)
  have w: "wrap64 (acc * n) = acc * n" using an lt by (intro wrap64_id) auto
  show ?case using Cons.IH [OF N an] Cons.prems(3) by (simp add: w mult.assoc)
qed

lemma prod_Naxis_prod_list:
  "in_range (Naxis h) a \<Longrightarrow> prod_list (Naxis h) < 2 ^ 63 \<Longrightarrow> prod_Naxis h = prod_list (Naxis h)"
  using foldl_wrap_prod [OF in_range_ge1, of "Naxis h" a 1] by (simp add: prod_Naxis_def)

lemma read_many_length:
  "read_many rd n b = Inr (xs, b') \<Longrightarrow> length xs = n"
  by (induction n arbitrary: b xs b') (auto split: sum.splits prod.splits)

lemma elem_at_flat_values:
  "elem_at d i = (if i < length (flat_values d) then Some (flat_values d ! i) else None)"
  by (cases d) (simp_all add: elem_at_def flat_values_def)

lemma load_pixels_length:
  assumes "load_pixels bp n b = Inr (d, b1)"
  shows "length (flat_values d) = n"
  using assms
  by (auto simp: load_pixels_def flat_values_def map_sum_def split: if_splits sum.splits prod.splits
           dest: read_many_length)

lemma set_Blank_keeps:
  assumes "set_Blank h bp = Inr h1"
  shows "Data h1 = Data h \<and> At h1 = At h \<and> IntAt h1 = IntAt h \<and> FloatAt h1 = FloatAt h \<and> Naxis h1 = Naxis h"
proof (cases "Keys h ''BLANK''")
  case None
  with assms show ?thesis by (auto simp: set_Blank_def split: if_splits)
next
  case (Some v)
  with assms show ?thesis by (cases v) (auto simp: set_Blank_def split: if_splits)
qed

lemma loadData_accessors:
  assumes ld: "loadData h b = Inr (e, h', b')"
    and ne: "Naxis h \<noteq> []"
    and bp: "as_int (Keys h ''BITPIX'') = Some bp" "valid_BITPIX bp"
    and r: "in_range (Naxis h) a" and p: "prod_list (Naxis h) < 2 ^ 63"
  shows "int (length (flat_values (Data h'))) = prod_list (Naxis h)
       \<and> nat (PixelIndex (Naxis h') a) < length (flat_values (Data h'))
       \<and> call_At h' a = Inr (flat_values (Data h') ! nat (PixelIndex (Naxis h') a))
       \<and> call_IntAt h' a = int64_of_value (flat_values (Data h') ! nat (PixelIndex (Naxis h') a))
       \<and> call_FloatAt h' a = float64_of_value (flat_values (Data h') ! nat (PixelIndex (Naxis h') a))"
proof -
  have pr: "prod_Naxis h = prod_list (Naxis h)" using prod_Naxis_prod_list [OF r p] .
  have b: "0 \<le> PixelIndex (Naxis h) a" "PixelIndex (Naxis h) a < prod_list (Naxis h)"
    using PixelIndex_bounds [OF r] by auto
  from ld ne bp pr b obtain d b1 where lp: "load_pixels bp (nat (prod_list (Naxis h))) b = Inr (d, b1)"
    and sb: "set_Blank (h\<lparr>Data := d, At := Some PixData, IntAt := Some PixData, FloatAt := Some PixData\<rparr>) bp = Inr h'"
    by (auto simp: loadData_def Let_def split: if_splits sum.splits prod.splits)
  from set_Blank_keeps [OF sb] have k: "Data h' = d" "At h' = Some PixData" "IntAt h' = Some PixData"
    "FloatAt h' = Some PixData" "Naxis h' = Naxis h" by auto
  have len: "length (flat_values d) = nat (prod_list (Naxis h))" by (rule load_pixels_length [OF lp])
  have ix: "index h' a = Inr (PixelIndex (Naxis h) a)"
    using index_fold_iff [of h' a] r b p by (simp add: k)
  have lt: "nat (PixelIndex (Naxis h) a) < length (flat_values d)" using b len by simp
  show ?thesis
    using b lt len
    by (simp add: k call_At_def call_IntAt_def call_FloatAt_def pixel_def ix elem_at_flat_values)
qed


lemma loadData_Naxis:
  assumes ld: "loadData h b = Inr (e, h', b')"
  shows "Naxis h' = Naxis h"
  using ld
  by (auto simp: loadData_def Let_def split: if_splits sum.splits prod.splits option.splits
           dest!: set_Blank_keeps)

text \<open>
  C7. The offset of \<^verbatim>\<open>index\<close> is a 64-bit \<^verbatim>\<open>int\<close> and wraps: with the axes
  \<open>[65536, 65536, 641, 6700417]\<close> (whose wrapped product, the length of the buffer that
  \<^verbatim>\<open>loadData\<close> allocates, is \<open>2^32\<close>) and the coordinates \<open>(5, 7, 640, 6700416)\<close> in range,
  \<^verbatim>\<open>index\<close> returns 458757, and the fold of the specification is \<open>2^64 + 458757\<close>.
\<close>

theorem index_wraps_beyond_64_bits: 
  "in_range [65536, 65536, 641, 6700417] [5, 7, 640, 6700416]
   \<and> index ((new_Unit Map.empty)\<lparr>Naxis := [65536, 65536, 641, 6700417]\<rparr>) [5, 7, 640, 6700416] = Inr 458757
   \<and> PixelIndex [65536, 65536, 641, 6700417] [5, 7, 640, 6700416] = 2 ^ 64 + 458757
   \<and> prod_Naxis ((new_Unit Map.empty)\<lparr>Naxis := [65536, 65536, 641, 6700417]\<rparr>) = 2 ^ 32"
  by code_simp

lemma image_3x2_facts:
  "Naxis image_3x2_header = [3, 2]"
  "as_int (Keys image_3x2_header ''BITPIX'') = Some 8"
  "valid_BITPIX 8"
  "in_range [3, 2] [2, 1]"
  "PixelIndex [3, 2] [2, 1] = 5"
  "map_sum id (\<lambda>(e, h, b). (flat_values (Data h), Naxis h))
      (loadData image_3x2_header (buffered image_3x2_bytes))
    = Inr ([VUint8 1, VUint8 2, VUint8 3, VUint8 4, VUint8 5, VUint8 6], [3, 2])"
  "int64_of_value (VUint8 6) = Inr 6"
  "float64_of_value (VUint8 6) = Inr (Fin 6)"
  by code_simp+

text \<open>
  C7, amended. For a unit and coordinates in range, \<^verbatim>\<open>index\<close> returns the axis-0-fastest
  fold of the specification exactly when that fold is below \<open>2^63\<close>, which it is whenever
  the product of the axes is below \<open>2^63\<close>. For a unit that \<^verbatim>\<open>loadData\<close> has loaded (at
  least one axis, BITPIX one of the six values) with the product of the axes below
  \<open>2^63\<close>, the buffer has an element at that offset, and \<^verbatim>\<open>At\<close>, \<^verbatim>\<open>IntAt\<close> and
  \<^verbatim>\<open>FloatAt\<close> return it: as it is stored, converted to \<^verbatim>\<open>int64\<close>, and converted to
  \<^verbatim>\<open>float64\<close>. The image with \<open>Naxis = [3, 2]\<close> and the flat values 1 to 6 has the
  pixels 1, 3, 4 and 6 at (0,0), (2,0), (0,1) and (2,1), through each of the three
  accessors.
\<close>

theorem pixel_offset_axis0_fastest:
  "(\<forall>(h :: Unit) a. in_range (Naxis h) a \<longrightarrow>
       (index h a = Inr (PixelIndex (Naxis h) a)) = (PixelIndex (Naxis h) a < 2 ^ 63))
   \<and> (\<forall>(h :: Unit) a. in_range (Naxis h) a \<and> prod_list (Naxis h) < 2 ^ 63 \<longrightarrow>
       index h a = Inr (PixelIndex (Naxis h) a))
   \<and> (\<forall>h b e h' b' bp a. loadData h b = Inr (e, h', b') \<and> Naxis h \<noteq> []
         \<and> as_int (Keys h ''BITPIX'') = Some bp \<and> valid_BITPIX bp
         \<and> in_range (Naxis h) a \<and> prod_list (Naxis h) < 2 ^ 63 \<longrightarrow>
       int (length (flat_values (Data h'))) = prod_list (Naxis h)
       \<and> nat (PixelIndex (Naxis h') a) < length (flat_values (Data h'))
       \<and> call_At h' a = Inr (flat_values (Data h') ! nat (PixelIndex (Naxis h') a))
       \<and> call_IntAt h' a = int64_of_value (flat_values (Data h') ! nat (PixelIndex (Naxis h') a))
       \<and> call_FloatAt h' a = float64_of_value (flat_values (Data h') ! nat (PixelIndex (Naxis h') a)))
   \<and> map_sum id (\<lambda>(e, h, b). (Naxis h, flat_values (Data h),
         map (call_At h) [[0, 0], [2, 0], [0, 1], [2, 1]],
         map (call_IntAt h) [[0, 0], [2, 0], [0, 1], [2, 1]],
         map (call_FloatAt h) [[0, 0], [2, 0], [0, 1], [2, 1]]))
        (loadData image_3x2_header (buffered image_3x2_bytes))
      = Inr ([3, 2], [VUint8 1, VUint8 2, VUint8 3, VUint8 4, VUint8 5, VUint8 6],
             [Inr (VUint8 1), Inr (VUint8 3), Inr (VUint8 4), Inr (VUint8 6)],
             [Inr 1, Inr 3, Inr 4, Inr 6],
             [Inr (Fin 1), Inr (Fin 3), Inr (Fin 4), Inr (Fin 6)])"
proof (intro conjI allI impI)
  fix h :: Unit and a
  assume "in_range (Naxis h) a"
  then show "(index h a = Inr (PixelIndex (Naxis h) a)) = (PixelIndex (Naxis h) a < 2 ^ 63)"
    by (rule index_fold_iff)
next
  fix h :: Unit and a
  assume a: "in_range (Naxis h) a \<and> prod_list (Naxis h) < 2 ^ 63"
  then have "PixelIndex (Naxis h) a < 2 ^ 63"
    using PixelIndex_bounds [of "Naxis h" a] by simp
  with a show "index h a = Inr (PixelIndex (Naxis h) a)"
    by (simp add: index_fold_iff)
next
  fix h b e h' b' bp a
  assume a: "loadData h b = Inr (e, h', b') \<and> Naxis h \<noteq> []
         \<and> as_int (Keys h ''BITPIX'') = Some bp \<and> valid_BITPIX bp
         \<and> in_range (Naxis h) a \<and> prod_list (Naxis h) < 2 ^ 63"
  then have c: "int (length (flat_values (Data h'))) = prod_list (Naxis h)
       \<and> nat (PixelIndex (Naxis h') a) < length (flat_values (Data h'))
       \<and> call_At h' a = Inr (flat_values (Data h') ! nat (PixelIndex (Naxis h') a))
       \<and> call_IntAt h' a = int64_of_value (flat_values (Data h') ! nat (PixelIndex (Naxis h') a))
       \<and> call_FloatAt h' a = float64_of_value (flat_values (Data h') ! nat (PixelIndex (Naxis h') a))"
    using loadData_accessors [of h b e h' b' bp a] by simp
  from c show "int (length (flat_values (Data h'))) = prod_list (Naxis h)" by simp
  from c show "nat (PixelIndex (Naxis h') a) < length (flat_values (Data h'))" by simp
  from c show "call_At h' a = Inr (flat_values (Data h') ! nat (PixelIndex (Naxis h') a))" by simp
  from c show "call_IntAt h' a = int64_of_value (flat_values (Data h') ! nat (PixelIndex (Naxis h') a))"
    by simp
  from c show "call_FloatAt h' a = float64_of_value (flat_values (Data h') ! nat (PixelIndex (Naxis h') a))"
    by simp
next
  show "map_sum id (\<lambda>(e, h, b). (Naxis h, flat_values (Data h),
         map (call_At h) [[0, 0], [2, 0], [0, 1], [2, 1]],
         map (call_IntAt h) [[0, 0], [2, 0], [0, 1], [2, 1]],
         map (call_FloatAt h) [[0, 0], [2, 0], [0, 1], [2, 1]]))
        (loadData image_3x2_header (buffered image_3x2_bytes))
      = Inr ([3, 2], [VUint8 1, VUint8 2, VUint8 3, VUint8 4, VUint8 5, VUint8 6],
             [Inr (VUint8 1), Inr (VUint8 3), Inr (VUint8 4), Inr (VUint8 6)],
             [Inr 1, Inr 3, Inr 4, Inr 6],
             [Inr (Fin 1), Inr (Fin 3), Inr (Fin 4), Inr (Fin 6)])"
    by code_simp
qed

text \<open>The theorem at the coordinates (2, 1) of the 3 by 2 image: the offset 5, the pixel 6.\<close>

theorem pixel_offset_axis0_fastest_witness:
  "in_range [3, 2] [2, 1] \<and> prod_list [3, 2 :: int] < 2 ^ 63 \<and> PixelIndex [3, 2] [2, 1] = 5
   \<and> index image_3x2_header [2, 1] = Inr 5
   \<and> map_sum id (\<lambda>(e, h, b). (Naxis h, flat_values (Data h), call_At h [2, 1], call_IntAt h [2, 1],
          call_FloatAt h [2, 1]))
        (loadData image_3x2_header (buffered image_3x2_bytes))
      = Inr ([3, 2], [VUint8 1, VUint8 2, VUint8 3, VUint8 4, VUint8 5, VUint8 6],
             Inr (VUint8 6), Inr 6, Inr (Fin 6))"
proof -
  note f = image_3x2_facts
  have r: "in_range (Naxis image_3x2_header) [2, 1]" "prod_list (Naxis image_3x2_header) < 2 ^ 63"
    "Naxis image_3x2_header \<noteq> []"
    by (simp_all add: f)
  from pixel_offset_axis0_fastest r
  have i: "index image_3x2_header [2, 1] = Inr (PixelIndex (Naxis image_3x2_header) [2, 1])"
    by blast
  from f(6) obtain e h b
    where l: "loadData image_3x2_header (buffered image_3x2_bytes) = Inr (e, h, b)"
    by (cases "loadData image_3x2_header (buffered image_3x2_bytes)") auto
  from f(6) have d: "flat_values (Data h) = [VUint8 1, VUint8 2, VUint8 3, VUint8 4, VUint8 5, VUint8 6]"
    "Naxis h = [3, 2]"
    by (simp_all add: l)
  from pixel_offset_axis0_fastest l r f(2,3)
  have "call_At h [2, 1] = Inr (flat_values (Data h) ! nat (PixelIndex (Naxis h) [2, 1]))
      \<and> call_IntAt h [2, 1] = int64_of_value (flat_values (Data h) ! nat (PixelIndex (Naxis h) [2, 1]))
      \<and> call_FloatAt h [2, 1] = float64_of_value (flat_values (Data h) ! nat (PixelIndex (Naxis h) [2, 1]))"
    by blast
  then have "call_At h [2, 1] = Inr (VUint8 6) \<and> call_IntAt h [2, 1] = Inr 6
      \<and> call_FloatAt h [2, 1] = Inr (Fin 6)"
    using d f(5,7,8) by (simp add: eval_nat_numeral)
  with i d f show ?thesis by (simp add: l)
qed

text \<open>
  C9. The scanner does turn a doubled quote into one quote and trims the trailing spaces,
  but only when a character follows the closing quote: on the literal \<open>'O''Brien'\<close>,
  which ends with its closing quote, it leaves the loop in state 2 and returns the error
  \<open>String ends prematurely\<close>. With a comment after the literal the result is \<open>O'Brien\<close>.
\<close>

theorem processString_closing_quote_at_end:
  "processString (quote # ''O'' @ [quote, quote] @ ''Brien'' @ [quote])
     = Inl (Errorf ''String ends prematurely'')
   \<and> processString (quote # ''O'' @ [quote, quote] @ ''Brien'' @ [quote] @ '' / name'')
     = Inr ''O'Brien''"
  by code_simp

text \<open>The table of one \<open>FLUX\<close> cell, loaded and formatted.\<close>

lemma flux_table_eval:
  "map_sum id (\<lambda>(e, h, b). (e, call_FieldFunc h (BinField (CHR ''D'') 1 0) 0,
        Format h (ColString ''FLUX'') 0, Format h (ColInt 0) 0,
        Format h (ColString ''NOPE'') 0, Format h (ColInt 1) 0, Format h (ColInt (- 1)) 0))
      (loadTable flux_table_header (buffered flux_bytes) True)
   = Inr (None, Inr (VFloat64 (Fin (542968705081355 / 549755813888))),
          Inr ''  987.6543'', Inr ''  987.6543'',
          Inl (Panic ''interface conversion''), Inr [], Inr [])"
  by code_simp

text \<open>
  C2. \<^verbatim>\<open>Format\<close> with a column index out of range returns the empty string, but with a
  name that resolves to no field it panics: the entry of the key \<open>#NOPE\<close> is missing and
  the type assertion \<open>n.(int)\<close> on it fails before the test \<open>fn == nil\<close> is reached.
\<close>

theorem Format_unknown_name_panics:
  "map_sum id (\<lambda>(e, h, b). (Format h (ColString ''NOPE'') 0, Format h (ColInt 1) 0))
      (loadTable flux_table_header (buffered flux_bytes) True)
   = Inr (Inl (Panic ''interface conversion''), Inr [])"
  using flux_table_eval by (cases "loadTable flux_table_header (buffered flux_bytes) True") auto

text \<open>The display format \<open>F10.4\<close> on a float: the format string and the result.\<close>

lemma F10_4_facts:
  "format_of (VString ''F10.4'') = Inr ''%10.4f''"
  "parse_format ''%10.4f'' = Some (False, Some 10, Some 4, CHR ''f'')"
  by code_simp+

lemma Format_F10_4_float:
  assumes "lookup_col h col = Inr (Some fn, VString ''F10.4'')"
    and "call_FieldFunc h fn row = Inr v" and "float_of_value v = Some x"
  shows "Format h col row = Inr (pad False 10 (fmt_fixed 4 x))"
  using assms by (simp add: Format_def F10_4_facts Sprintf_def)

lemma pad_length: "w \<le> length (pad lj w s)"
  by (auto simp: pad_def)

lemma flux_E_table_eval:
  "map_sum id (\<lambda>(e, h, b). (lookup_col h (ColString ''FLUX''), lookup_col h (ColInt 0),
        call_FieldFunc h (BinField (CHR ''E'') 1 0) 0,
        Format h (ColString ''FLUX'') 0, Format h (ColInt 0) 0))
      (loadTable flux_E_table_header (buffered flux_E_bytes) True)
   = Inr (Inr (Some (BinField (CHR ''E'') 1 0), VString ''F10.4''),
          Inr (Some (BinField (CHR ''E'') 1 0), VString ''F10.4''),
          Inr (VFloat32 (Fin (505679 / 512))),
          Inr ''  987.6543'', Inr ''  987.6543'')"
  "pad False 10 (fmt_fixed 4 (Fin (505679 / 512))) = ''  987.6543''"
  "\<bar>505679 / 512 - 987654321 / 1000000 :: rat\<bar> < 1 / 2 ^ 15"
  by code_simp+

lemma flux_D_table_eval:
  "map_sum id (\<lambda>(e, h, b). (lookup_col h (ColString ''FLUX''), lookup_col h (ColInt 0),
        call_FieldFunc h (BinField (CHR ''D'') 1 0) 0,
        Format h (ColString ''FLUX'') 0, Format h (ColInt 0) 0))
      (loadTable flux_table_header (buffered flux_bytes) True)
   = Inr (Inr (Some (BinField (CHR ''D'') 1 0), VString ''F10.4''),
          Inr (Some (BinField (CHR ''D'') 1 0), VString ''F10.4''),
          Inr (VFloat64 (Fin (542968705081355 / 549755813888))),
          Inr ''  987.6543'', Inr ''  987.6543'')"
  "\<bar>542968705081355 / 549755813888 - 987654321 / 1000000 :: rat\<bar> < 1 / 2 ^ 43"
  by code_simp+

text \<open>
  C5. \<^verbatim>\<open>Format\<close> builds the format \<open>%10.4f\<close> from \<open>F10.4\<close>, and the width pads the
  result: for every cell whose value is a float and whose display format is \<open>F10.4\<close>,
  the result is the value with four decimals right-justified in ten characters, so it has
  at least ten characters and is never the bare \<open>987.6543\<close>. On the table of the package
  documentation (a column \<open>FLUX\<close> of type \<open>E\<close> whose cell is the float32 nearest to
  987.654321), and on the same table with a column of type \<open>D\<close>, \<^verbatim>\<open>Format\<close> returns
  two spaces and \<open>987.6543\<close>, by name and by index.
\<close>

theorem Format_F10_4_pads_to_width:
  "(\<forall>h col row fn v x. lookup_col h col = Inr (Some fn, VString ''F10.4'')
        \<and> call_FieldFunc h fn row = Inr v \<and> float_of_value v = Some x
      \<longrightarrow> Format h col row = Inr (pad False 10 (fmt_fixed 4 x))
          \<and> 10 \<le> length (pad False 10 (fmt_fixed 4 x)))
   \<and> map_sum id (\<lambda>(e, h, b). (call_FieldFunc h (BinField (CHR ''E'') 1 0) 0,
          Format h (ColString ''FLUX'') 0, Format h (ColInt 0) 0))
        (loadTable flux_E_table_header (buffered flux_E_bytes) True)
      = Inr (Inr (VFloat32 (Fin (505679 / 512))), Inr ''  987.6543'', Inr ''  987.6543'')
   \<and> \<bar>505679 / 512 - 987654321 / 1000000 :: rat\<bar> < 1 / 2 ^ 15
   \<and> map_sum id (\<lambda>(e, h, b). (call_FieldFunc h (BinField (CHR ''D'') 1 0) 0,
          Format h (ColString ''FLUX'') 0, Format h (ColInt 0) 0))
        (loadTable flux_table_header (buffered flux_bytes) True)
      = Inr (Inr (VFloat64 (Fin (542968705081355 / 549755813888))), Inr ''  987.6543'', Inr ''  987.6543'')
   \<and> \<bar>542968705081355 / 549755813888 - 987654321 / 1000000 :: rat\<bar> < 1 / 2 ^ 43"
proof (intro conjI allI impI)
  fix h col row fn v x
  assume a: "lookup_col h col = Inr (Some fn, VString ''F10.4'')
        \<and> call_FieldFunc h fn row = Inr v \<and> float_of_value v = Some x"
  then show "Format h col row = Inr (pad False 10 (fmt_fixed 4 x))"
    by (simp add: Format_F10_4_float)
  show "10 \<le> length (pad False 10 (fmt_fixed 4 x))" by (rule pad_length)
next
  show "map_sum id (\<lambda>(e, h, b). (call_FieldFunc h (BinField (CHR ''E'') 1 0) 0,
          Format h (ColString ''FLUX'') 0, Format h (ColInt 0) 0))
        (loadTable flux_E_table_header (buffered flux_E_bytes) True)
      = Inr (Inr (VFloat32 (Fin (505679 / 512))), Inr ''  987.6543'', Inr ''  987.6543'')"
    using flux_E_table_eval(1)
    by (cases "loadTable flux_E_table_header (buffered flux_E_bytes) True") auto
next
  show "\<bar>505679 / 512 - 987654321 / 1000000 :: rat\<bar> < 1 / 2 ^ 15"
    by (rule flux_E_table_eval(3))
next
  show "map_sum id (\<lambda>(e, h, b). (call_FieldFunc h (BinField (CHR ''D'') 1 0) 0,
          Format h (ColString ''FLUX'') 0, Format h (ColInt 0) 0))
        (loadTable flux_table_header (buffered flux_bytes) True)
      = Inr (Inr (VFloat64 (Fin (542968705081355 / 549755813888))), Inr ''  987.6543'', Inr ''  987.6543'')"
    using flux_D_table_eval(1)
    by (cases "loadTable flux_table_header (buffered flux_bytes) True") auto
next
  show "\<bar>542968705081355 / 549755813888 - 987654321 / 1000000 :: rat\<bar> < 1 / 2 ^ 43"
    by (rule flux_D_table_eval(2))
qed

text \<open>The theorem at the cell of the documentation's table.\<close>

theorem Format_F10_4_pads_to_width_witness:
  "map_sum id (\<lambda>(e, h, b). (lookup_col h (ColString ''FLUX''),
          call_FieldFunc h (BinField (CHR ''E'') 1 0) 0, Format h (ColString ''FLUX'') 0))
        (loadTable flux_E_table_header (buffered flux_E_bytes) True)
      = Inr (Inr (Some (BinField (CHR ''E'') 1 0), VString ''F10.4''),
             Inr (VFloat32 (Fin (505679 / 512))),
             Inr (pad False 10 (fmt_fixed 4 (Fin (505679 / 512)))))
   \<and> float_of_value (VFloat32 (Fin (505679 / 512))) = Some (Fin (505679 / 512))
   \<and> pad False 10 (fmt_fixed 4 (Fin (505679 / 512))) = ''  987.6543''
   \<and> 10 \<le> length ''  987.6543''"
proof -
  from flux_E_table_eval(1) obtain e h b
    where l: "loadTable flux_E_table_header (buffered flux_E_bytes) True = Inr (e, h, b)"
    by (cases "loadTable flux_E_table_header (buffered flux_E_bytes) True") auto
  from flux_E_table_eval(1) have c: "lookup_col h (ColString ''FLUX'') = Inr (Some (BinField (CHR ''E'') 1 0), VString ''F10.4'')"
    and d: "call_FieldFunc h (BinField (CHR ''E'') 1 0) 0 = Inr (VFloat32 (Fin (505679 / 512)))"
    by (simp_all add: l)
  have f: "float_of_value (VFloat32 (Fin (505679 / 512))) = Some (Fin (505679 / 512))" by simp
  from Format_F10_4_pads_to_width c d f
  have "Format h (ColString ''FLUX'') 0 = Inr (pad False 10 (fmt_fixed 4 (Fin (505679 / 512))))"
    by blast
  with c d flux_E_table_eval(2) show ?thesis by (simp add: l)
qed


subsection \<open>The layout of binary tables\<close>

lemma digits_value_append:
  "digits_value acc (xs @ [c]) = 10 * digits_value acc xs + digit_val c"
  by (induction xs arbitrary: acc) auto

lemma digits_value_show_digits:
  "0 \<le> n \<Longrightarrow> digits_value 0 (show_digits n) = n"
proof (induction n rule: show_digits.induct)
  case (1 n)
  show ?case
  proof (cases "n < 10")
    case True
    with "1.prems" have "(48 + n) mod 256 = 48 + n" by simp
    with True show ?thesis by (subst show_digits.simps) (simp add: digit_val_def)
  next
    case False
    with "1.prems" "1.IH" have ih: "digits_value 0 (show_digits (n div 10)) = n div 10" by simp
    have "0 \<le> n mod 10" "n mod 10 < 10" by simp_all
    then have "(48 + n mod 10) mod 256 = 48 + n mod 10" by simp
    with False ih show ?thesis
      by (subst show_digits.simps) (simp add: digits_value_append digit_val_def)
  qed
qed

lemma show_digits_inj:
  "0 \<le> a \<Longrightarrow> 0 \<le> b \<Longrightarrow> show_digits a = show_digits b \<Longrightarrow> a = b"
  by (metis digits_value_show_digits)

lemma Nth_inj: "0 \<le> a \<Longrightarrow> 0 \<le> b \<Longrightarrow> Nth p a = Nth p b \<Longrightarrow> a = b"
  by (auto simp: Nth_def show_int_def dest: show_digits_inj)

lemma Nth_prefix_neq:
  "Nth ''TFORM'' a \<noteq> Nth ''TTYPE'' b" "Nth ''TFORM'' a \<noteq> Nth ''TDISP'' b"
  "Nth ''TFORM'' a \<noteq> ''#'' @ nm" "Nth ''TTYPE'' a \<noteq> Nth ''TDISP'' b"
  "Nth ''TTYPE'' a \<noteq> ''#'' @ nm" "Nth ''TDISP'' a \<noteq> Nth ''TTYPE'' b"
  "Nth ''TFORM'' a \<noteq> CHR ''#'' # nm" "Nth ''TTYPE'' a \<noteq> CHR ''#'' # nm"
  "CHR ''#'' # nm \<noteq> Nth ''TFORM'' a" "CHR ''#'' # nm \<noteq> Nth ''TTYPE'' a"
  by (simp_all add: Nth_def)

lemma digits_value_nonneg:
  "list_all is_digit s \<Longrightarrow> 0 \<le> acc \<Longrightarrow> 0 \<le> digits_value acc s"
  by (induction s arbitrary: acc) (auto simp: is_digit_def digit_val_def)

lemma ParseInt32_upper: "ParseInt32 s < 2 ^ 31"
  using digits_value_nonneg [of "tl s" 0] digits_value_nonneg [of s 0]
  by (auto simp: ParseInt32_def Let_def)

lemma field_repeat_upper: "field_repeat f < 2 ^ 31"
proof (cases "IndexAny f ''ABCDEIJKLMPQX''")
  case None
  then show ?thesis by (simp add: field_repeat_def)
next
  case (Some j)
  show ?thesis using ParseInt32_upper [of "take j f"] by (simp add: field_repeat_def Some)
qed

lemma bin_length_element_size: "bin_length c = element_size c"
  by (simp add: bin_length_def element_size_def)

lemma element_size_bounds: "0 \<le> element_size c" "element_size c \<le> 16"
  by (simp_all add: element_size_def)

lemma field_bytes_bounds: "0 \<le> field_bytes f" "field_bytes f \<le> 16 * 2 ^ 31"
proof -
  show "0 \<le> field_bytes f" by (simp add: field_bytes_def element_size_bounds)
  show "field_bytes f \<le> 16 * 2 ^ 31"
  proof (cases "field_repeat f > 0")
    case True
    have "field_repeat f * element_size (field_code f) \<le> 2 ^ 31 * 16"
      using True field_repeat_upper [of f] element_size_bounds [of "field_code f"]
      by (intro mult_mono) auto
    with True show ?thesis by (simp add: field_bytes_def)
  next
    case False
    then show ?thesis by (simp add: field_bytes_def)
  qed
qed

lemma row_offset_nonneg: "0 \<le> row_offset h i"
  unfolding row_offset_def by (induction i) (auto simp: field_bytes_bounds)

lemma wrap64_add_left: "wrap64 (wrap64 a + b) = wrap64 (a + b)"
proof -
  have "(wrap64 a + b + 2 ^ 63) mod 2 ^ 64 = ((a + 2 ^ 63) mod 2 ^ 64 + b) mod (2 ^ 64 :: int)"
    by (simp add: wrap64_def)
  also have "\<dots> = (a + 2 ^ 63 + b) mod 2 ^ 64" by (rule mod_add_left_eq)
  also have "a + 2 ^ 63 + b = a + b + (2 ^ 63 :: int)" by simp
  finally show ?thesis unfolding wrap64_def by simp
qed

lemma register_props:
  assumes reg: "register i fn disp h = Inr h1"
  shows "list h1 = (list h)[i := Some fn] \<and> tform h1 k = tform h k \<and> Data h1 = Data h
       \<and> (k \<noteq> i \<longrightarrow> ttype h1 k = ttype h k)
       \<and> (fieldmap h1 nm \<noteq> fieldmap h nm \<longrightarrow> ttype h i = Some nm)"
proof -
  have inj: "k \<noteq> i \<Longrightarrow> Nth ''TTYPE'' (int k + 1) \<noteq> Nth ''TTYPE'' (int i + 1)"
    using Nth_inj [of "int k + 1" "int i + 1" "''TTYPE''"] by auto
  show ?thesis
  proof (cases "Keys h (Nth ''TTYPE'' (int i + 1))")
    case None
    with reg inj show ?thesis
      by (auto simp: register_def Let_def tform_def ttype_def Nth_prefix_neq split: if_splits)
  next
    case (Some name)
    with reg inj show ?thesis
      by (cases name) (auto simp: register_def Let_def tform_def ttype_def Nth_prefix_neq split: if_splits)
  qed
qed

lemma loadTable_field_cases:
  assumes step: "loadTable_field True i h col = Inr (err, h1, col1)"
  shows "(h1 = h \<and> col1 = col \<and> (err \<noteq> None \<or> \<not> field_repeat (tform h i) > 0))
       \<or> (err = None \<and> field_repeat (tform h i) > 0
          \<and> (\<exists>disp. register i (BinField (field_code (tform h i)) (field_repeat (tform h i)) col) disp h = Inr h1)
          \<and> col1 = wrap64 (col + field_bytes (tform h i)))"
proof -
  from step obtain form where form: "as_string (Keys h (Nth ''TFORM'' (int i + 1))) = Some form"
    by (auto simp: loadTable_field_def split: option.splits)
  then have tf: "tform h i = form" by (simp add: tform_def)
  show ?thesis
  proof (cases "IndexAny form ''ABCDEIJKLMPQX''")
    case None
    with step form show ?thesis by (auto simp: loadTable_field_def)
  next
    case (Some j)
    have rep: "field_repeat form = (if j > 0 then ParseInt32 (take j form) else 1)"
      and code: "field_code form = form ! j"
      by (simp_all add: field_repeat_def field_code_def Some)
    show ?thesis
    proof (cases "field_repeat form > 0")
      case False
      with step form Some rep tf show ?thesis
        by (auto simp: loadTable_field_def Let_def split: if_splits)
    next
      case True
      with step form Some rep obtain fn disp where
        acc: "accessorBin h (form ! j) (field_repeat form) col = Inr (fn, disp, col1)"
        and reg: "register i fn disp h = Inr h1" and e: "err = None"
        by (auto simp: loadTable_field_def Let_def split: if_splits sum.splits)
      from acc have fn: "fn = BinField (form ! j) (field_repeat form) col"
        and c1: "col1 = wrap64 (col + wrap64 (bin_length (form ! j) * field_repeat form))"
        by (auto simp: accessorBin_def split: if_splits)
      have fb: "field_bytes form = bin_length (form ! j) * field_repeat form"
        using True by (simp add: field_bytes_def code mult.commute bin_length_element_size)
      have "wrap64 (field_bytes form) = field_bytes form"
        using field_bytes_bounds [of form] by (intro wrap64_id) auto
      with c1 fb have "col1 = wrap64 (col + field_bytes form)" by simp
      with reg True e fn show ?thesis by (auto simp: code tf)
    qed
  qed
qed

lemma sum_upt_split:
  "i < k \<Longrightarrow> sum_list (map f [i..<k]) = f i + sum_list (map f [Suc i..<k])"
  by (simp add: upt_conv_Cons)

lemma loadTable_loop_layout:
  assumes "loadTable_loop True n i h col = Inr (err, h')"
    and "wrap64 col = col"
    and "k < length (list h)"
  shows "length (list h') = length (list h)
     \<and> (list h' ! k = list h ! k
        \<or> (i \<le> k \<and> k < i + n \<and> field_repeat (tform h k) > 0
           \<and> list h' ! k = Some (BinField (field_code (tform h k)) (field_repeat (tform h k))
                   (wrap64 (col + sum_list (map (\<lambda>j. field_bytes (tform h j)) [i..<k]))))))
     \<and> (err = None \<and> i \<le> k \<and> k < i + n \<and> field_repeat (tform h k) > 0 \<longrightarrow>
          list h' ! k = Some (BinField (field_code (tform h k)) (field_repeat (tform h k))
                   (wrap64 (col + sum_list (map (\<lambda>j. field_bytes (tform h j)) [i..<k])))))"
  using assms
proof (induction n arbitrary: i h col)
  case 0
  then show ?case by auto
next
  case (Suc n)
  let ?fb = "\<lambda>j. field_bytes (tform h j)"
  let ?acc = "\<lambda>k c. Some (BinField (field_code (tform h k)) (field_repeat (tform h k)) c)"
  from Suc.prems(1) obtain err1 h1 col1 where
    step: "loadTable_field True i h col = Inr (err1, h1, col1)"
    by (auto split: sum.splits)
  note c = loadTable_field_cases [OF step]
  show ?case
  proof (cases err1)
    case (Some e)
    with Suc.prems(1) step have "h' = h1" "err = Some e" by auto
    moreover from c Some have "h1 = h" by auto
    ultimately show ?thesis by simp
  next
    case None
    with Suc.prems(1) step have rest: "loadTable_loop True n (Suc i) h1 col1 = Inr (err, h')"
      by simp
    have tf: "tform h1 j = tform h j" for j
      using c by (auto dest: register_props [where k = j])
    have l1: "list h1 = (if field_repeat (tform h i) > 0 then (list h)[i := ?acc i col] else list h)"
      using c None by (auto dest: register_props)
    have c1: "col1 = wrap64 (col + ?fb i)"
      using c None Suc.prems(2) by (auto simp: field_bytes_def)
    have w1: "wrap64 col1 = col1"
      unfolding c1 using wrap64_add_left [of "col + ?fb i" 0] by simp
    have len1: "length (list h1) = length (list h)" by (simp add: l1)
    have off: "wrap64 (col1 + sum_list (map ?fb [Suc i..<k])) = wrap64 (col + sum_list (map ?fb [i..<k]))"
      if "i < k"
      using that by (simp add: c1 wrap64_add_left sum_upt_split add.assoc)
    from Suc.IH [OF rest w1] Suc.prems(3) len1
    have ih: "length (list h') = length (list h1)"
      "list h' ! k = list h1 ! k
        \<or> (Suc i \<le> k \<and> k < Suc i + n \<and> field_repeat (tform h k) > 0
           \<and> list h' ! k = ?acc k (wrap64 (col1 + sum_list (map ?fb [Suc i..<k]))))"
      "err = None \<and> Suc i \<le> k \<and> k < Suc i + n \<and> field_repeat (tform h k) > 0 \<longrightarrow>
          list h' ! k = ?acc k (wrap64 (col1 + sum_list (map ?fb [Suc i..<k])))"
      by (simp_all add: tf)
    show ?thesis
    proof (cases "k = i")
      case True
      with ih(2) have "list h' ! k = list h1 ! i" by auto
      also have "\<dots> = (if field_repeat (tform h i) > 0 then ?acc i col else list h ! i)"
        using Suc.prems(3) True by (simp add: l1)
      finally show ?thesis using True ih(1) len1 Suc.prems(2) by auto
    next
      case False
      have same: "list h1 ! k = list h ! k" using False by (simp add: l1)
      show ?thesis
      proof (cases "i < k")
        case True
        with ih same off [OF True] len1 show ?thesis by auto
      next
        case F: False
        with False have "k < i" by simp
        with ih same len1 show ?thesis by auto
      qed
    qed
  qed
qed

lemma loadTable_loop_names:
  assumes "loadTable_loop True n i h col = Inr (err, h')"
  shows "Data h' = Data h \<and> (\<forall>k. tform h' k = tform h k)
     \<and> (fieldmap h' nm \<noteq> fieldmap h nm \<longrightarrow>
           (\<exists>k. i \<le> k \<and> k < i + n \<and> field_repeat (tform h k) > 0 \<and> ttype h k = Some nm))"
  using assms
proof (induction n arbitrary: i h col)
  case 0
  then show ?case by simp
next
  case (Suc n)
  from Suc.prems(1) obtain err1 h1 col1 where
    step: "loadTable_field True i h col = Inr (err1, h1, col1)"
    by (auto split: sum.splits)
  note c = loadTable_field_cases [OF step]
  show ?case
  proof (cases err1)
    case (Some e)
    with Suc.prems(1) step have "h' = h1" by auto
    moreover from c Some have "h1 = h" by auto
    ultimately show ?thesis by simp
  next
    case None
    with Suc.prems(1) step have rest: "loadTable_loop True n (Suc i) h1 col1 = Inr (err, h')"
      by simp
    have tf: "tform h1 j = tform h j" for j
      using c by (auto dest: register_props [where k = j])
    have d: "Data h1 = Data h"
      using c by (auto dest: register_props)
    have tt: "ttype h1 k = ttype h k" if "k \<noteq> i" for k
      using c that by (auto dest: register_props [where k = k])
    have fm: "fieldmap h1 nm \<noteq> fieldmap h nm \<longrightarrow> field_repeat (tform h i) > 0 \<and> ttype h i = Some nm"
      using c None by (auto dest: register_props [where nm = nm])
    note ih = Suc.IH [OF rest]
    show ?thesis
    proof (intro conjI impI allI)
      show "Data h' = Data h" using ih d by simp
      show "tform h' k = tform h k" for k using ih tf by simp
      assume ne: "fieldmap h' nm \<noteq> fieldmap h nm"
      show "\<exists>k. i \<le> k \<and> k < i + Suc n \<and> field_repeat (tform h k) > 0 \<and> ttype h k = Some nm"
      proof (cases "fieldmap h' nm = fieldmap h1 nm")
        case True
        with ne fm show ?thesis by (intro exI [of _ i]) auto
      next
        case False
        with ih obtain k where k: "Suc i \<le> k" "k < Suc i + n" "field_repeat (tform h1 k) > 0"
          "ttype h1 k = Some nm" by auto
        from k(1) have "k \<noteq> i" by simp
        from tt [OF this] k show ?thesis by (intro exI [of _ k]) (auto simp: tf)
      qed
    qed
  qed
qed


lemma loadTable_bin_unfold:
  assumes "loadTable h b True = Inr (err, h', b')"
  shows "\<exists>tf h1. as_int (Keys h ''TFIELDS'') = Some tf \<and> 0 \<le> tf \<and> Keys h1 = Keys h
     \<and> list h1 = replicate (nat tf) None \<and> fieldmap h1 = Map.empty
     \<and> loadTable_loop True (nat tf) 0 h1 0 = Inr (err, h')"
proof -
  from assms obtain tf where tf: "as_int (Keys h ''TFIELDS'') = Some tf" "0 \<le> tf"
    by (auto simp: loadTable_def split: option.splits if_splits)
  from assms tf obtain got where
    "loadTable_loop True (nat tf) 0
       (h\<lparr>list := replicate (nat tf) None, fieldmap := Map.empty,
          Data := Bytes (got @ replicate (nat (wrap64 (Naxis h ! 0 * Naxis h ! 1)) - length got) (CHR 0x00))\<rparr>) 0
     = Inr (err, h')"
    by (auto simp: loadTable_def Let_def split: if_splits sum.splits)
  with tf show ?thesis
    by (intro exI [of _ tf] exI [of _ "h\<lparr>list := replicate (nat tf) None, fieldmap := Map.empty,
          Data := Bytes (got @ replicate (nat (wrap64 (Naxis h ! 0 * Naxis h ! 1)) - length got) (CHR 0x00))\<rparr>"])
       simp
qed

lemma tform_Keys: "Keys h1 = Keys h \<Longrightarrow> tform h1 k = tform h k"
  by (simp add: tform_def)

lemma ttype_Keys: "Keys h1 = Keys h \<Longrightarrow> ttype h1 k = ttype h k"
  by (simp add: ttype_def)

lemma loadTable_bin_layout:
  assumes lt: "loadTable h b True = Inr (err, h', b')" and tf: "as_int (Keys h ''TFIELDS'') = Some tf"
    and i: "int i < tf"
  shows "length (list h') = nat tf"
    and "list h' ! i = None
        \<or> (field_repeat (tform h i) > 0
           \<and> list h' ! i = Some (BinField (field_code (tform h i)) (field_repeat (tform h i))
                   (wrap64 (row_offset h i))))"
    and "err = None \<Longrightarrow> field_repeat (tform h i) > 0 \<Longrightarrow>
           list h' ! i = Some (BinField (field_code (tform h i)) (field_repeat (tform h i))
                   (wrap64 (row_offset h i)))"
proof -
  from loadTable_bin_unfold [OF lt] tf obtain h1 where h1: "0 \<le> tf" "Keys h1 = Keys h"
    "list h1 = replicate (nat tf) None" "fieldmap h1 = Map.empty"
    "loadTable_loop True (nat tf) 0 h1 0 = Inr (err, h')"
    by auto
  have t: "tform h1 k = tform h k" for k by (rule tform_Keys [OF h1(2)])
  have k: "i < length (list h1)" using i h1 by simp
  have w: "wrap64 0 = 0" by (simp add: wrap64_def)
  note l = loadTable_loop_layout [OF h1(5) w k]
  from l show "length (list h') = nat tf" by (simp add: h1)
  from l k show "list h' ! i = None
        \<or> (field_repeat (tform h i) > 0
           \<and> list h' ! i = Some (BinField (field_code (tform h i)) (field_repeat (tform h i))
                   (wrap64 (row_offset h i))))"
    by (auto simp: h1(3) t row_offset_def)
  from l k i h1(1) show "err = None \<Longrightarrow> field_repeat (tform h i) > 0 \<Longrightarrow>
           list h' ! i = Some (BinField (field_code (tform h i)) (field_repeat (tform h i))
                   (wrap64 (row_offset h i)))"
    by (auto simp: t row_offset_def)
qed

lemma loadTable_bin_names:
  assumes lt: "loadTable h b True = Inr (err, h', b')" and tf: "as_int (Keys h ''TFIELDS'') = Some tf"
    and nm: "fieldmap h' nm \<noteq> None"
  shows "\<exists>k. int k < tf \<and> field_repeat (tform h k) > 0 \<and> ttype h k = Some nm"
proof -
  from loadTable_bin_unfold [OF lt] tf obtain h1 where h1: "0 \<le> tf" "Keys h1 = Keys h"
    "list h1 = replicate (nat tf) None" "fieldmap h1 = Map.empty"
    "loadTable_loop True (nat tf) 0 h1 0 = Inr (err, h')"
    by auto
  from loadTable_loop_names [OF h1(5), of nm] nm h1(4)
  obtain k where "k < nat tf" "field_repeat (tform h1 k) > 0" "ttype h1 k = Some nm"
    by auto
  then show ?thesis
    by (intro exI [of _ k]) (auto simp: tform_Keys [OF h1(2)] ttype_Keys [OF h1(2)])
qed

lemma two_field_facts:
  "map_sum id (\<lambda>(e, h, b). (e, list h, call_FieldFunc h (BinField (CHR ''J'') 1 6) 0,
        call_FieldFunc h (BinField (CHR ''I'') 3 0) 0))
      (loadTable two_field_header (buffered two_field_bytes) True)
   = Inr (None, [Some (BinField (CHR ''I'') 3 0), Some (BinField (CHR ''J'') 1 6)],
          Inr (VInt32 7), Inr (VSlice [VInt16 1, VInt16 2, VInt16 3]))"
  "row_offset two_field_header 1 = 6"
  "declared_offset two_field_header 1 = 6"
  "as_int (Keys two_field_header ''TFIELDS'') = Some 2"
  "field_repeat (tform two_field_header 1) = 1"
  "field_code (tform two_field_header 1) = CHR ''J''"
  by code_simp+

lemma negative_repeat_facts:
  "map_sum id (\<lambda>(e, h, b). (e, list h, call_FieldFunc h (BinField (CHR ''J'') 1 0) 0))
      (loadTable negative_repeat_header (buffered one_field_bytes) True)
   = Inr (None, [None, Some (BinField (CHR ''J'') 1 0)], Inr (VInt32 7))"
  "field_repeat (tform negative_repeat_header 0) = - 5"
  "element_size (field_code (tform negative_repeat_header 0)) = 2"
  "declared_offset negative_repeat_header 1 = - 10"
  by code_simp+

lemma duplicate_name_facts:
  "map_sum id (\<lambda>(e, h, b). (e, list h, fieldmap h ''X'', Field h (ColString ''X''), Field h (ColInt 0),
        call_FieldFunc h (BinField (CHR ''J'') 1 0) 0))
      (loadTable duplicate_name_header (buffered one_field_bytes) True)
   = Inr (None, [None, Some (BinField (CHR ''J'') 1 0)], Some (BinField (CHR ''J'') 1 0),
          Some (BinField (CHR ''J'') 1 0), None, Inr (VInt32 7))"
  "field_repeat (tform duplicate_name_header 0) = 0"
  "ttype duplicate_name_header 0 = Some ''X''"
  by code_simp+

lemma zero_repeat_facts:
  "map_sum id (\<lambda>(e, h, b). (e, list h, fieldmap h ''X'', Field h (ColString ''X''), Field h (ColInt 0)))
      (loadTable zero_repeat_header (buffered one_field_bytes) True)
   = Inr (None, [None, Some (BinField (CHR ''J'') 1 0)], None, Some NullField, None)"
  "field_repeat (tform zero_repeat_header 0) = 0"
  "field_repeat (tform zero_repeat_header 1) = 1"
  "ttype zero_repeat_header 0 = Some ''X''"
  "ttype zero_repeat_header 1 = Some ''Y''"
  "as_int (Keys zero_repeat_header ''TFIELDS'') = Some 2"
  by code_simp+


lemma loadTable_bin_length:
  assumes "loadTable h b True = Inr (err, h', b')"
  shows "\<exists>tf. as_int (Keys h ''TFIELDS'') = Some tf \<and> length (list h') = nat tf"
proof -
  from loadTable_bin_unfold [OF assms] obtain tf where tf: "as_int (Keys h ''TFIELDS'') = Some tf" "0 \<le> tf"
    by auto
  then have "int 0 < tf \<or> tf = 0" by auto
  then show ?thesis
  proof
    assume "int 0 < tf"
    from loadTable_bin_layout(1) [OF assms tf(1) this] tf show ?thesis by simp
  next
    assume z: "tf = 0"
    from loadTable_bin_unfold [OF assms] tf z have "list h' = []" by auto
    with tf z show ?thesis by simp
  qed
qed

text \<open>
  C8, amended. In a binary table that \<^verbatim>\<open>loadTable\<close> has laid out, every accessor of the
  index list belongs to a field with a positive repeat count and holds, as its fixed
  offset in the row, the sum of \<open>repeat * element_size\<close> over the fields before it that
  have a positive repeat count, in the 64-bit arithmetic of the cursor; when
  \<^verbatim>\<open>loadTable\<close> returns no error every field with a positive repeat count has such an
  accessor. A field whose repeat count is not positive gets no accessor and takes no
  bytes. Below \<open>2^63\<close> the 64-bit sum is the sum. A field \<open>3I\<close> followed by a field
  \<open>1J\<close> gives the second field the offset 6, where its value is read.
\<close>

theorem binary_field_offsets:
  "(\<forall>h b err h' b' i fn. loadTable h b True = Inr (err, h', b') \<and> i < length (list h')
        \<and> list h' ! i = Some fn \<longrightarrow>
       field_repeat (tform h i) > 0
       \<and> fn = BinField (field_code (tform h i)) (field_repeat (tform h i)) (wrap64 (row_offset h i)))
   \<and> (\<forall>h b h' b' i. loadTable h b True = Inr (None, h', b') \<and> i < length (list h')
        \<and> field_repeat (tform h i) > 0 \<longrightarrow>
       list h' ! i = Some (BinField (field_code (tform h i)) (field_repeat (tform h i))
                            (wrap64 (row_offset h i))))
   \<and> (\<forall>h i. row_offset h i < 2 ^ 63 \<longrightarrow> wrap64 (row_offset h i) = row_offset h i)
   \<and> map_sum id (\<lambda>(e, h, b). (e, list h, call_FieldFunc h (BinField (CHR ''J'') 1 6) 0))
        (loadTable two_field_header (buffered two_field_bytes) True)
      = Inr (None, [Some (BinField (CHR ''I'') 3 0), Some (BinField (CHR ''J'') 1 6)], Inr (VInt32 7))
   \<and> row_offset two_field_header 1 = 6"
proof (intro conjI allI impI)
  fix h b err h' b' i fn
  assume a: "loadTable h b True = Inr (err, h', b') \<and> i < length (list h') \<and> list h' ! i = Some fn"
  then obtain tf where tf: "as_int (Keys h ''TFIELDS'') = Some tf" "length (list h') = nat tf"
    using loadTable_bin_length [of h b err h' b'] by auto
  with a have i: "int i < tf" by auto
  from a have lt: "loadTable h b True = Inr (err, h', b')" by simp
  from loadTable_bin_layout(2) [OF lt tf(1) i] a
  show "field_repeat (tform h i) > 0" by auto
  from loadTable_bin_layout(2) [OF lt tf(1) i] a
  show "fn = BinField (field_code (tform h i)) (field_repeat (tform h i)) (wrap64 (row_offset h i))"
    by auto
next
  fix h b h' b' i
  assume a: "loadTable h b True = Inr (None, h', b') \<and> i < length (list h')
        \<and> field_repeat (tform h i) > 0"
  then obtain tf where tf: "as_int (Keys h ''TFIELDS'') = Some tf" "length (list h') = nat tf"
    using loadTable_bin_length [of h b None h' b'] by auto
  with a have i: "int i < tf" by auto
  from a have lt: "loadTable h b True = Inr (None, h', b')" by simp
  from loadTable_bin_layout(3) [OF lt tf(1) i] a
  show "list h' ! i = Some (BinField (field_code (tform h i)) (field_repeat (tform h i))
                            (wrap64 (row_offset h i)))"
    by simp
next
  fix h i
  assume "row_offset h i < 2 ^ 63"
  then show "wrap64 (row_offset h i) = row_offset h i"
    using row_offset_nonneg [of h i] by (intro wrap64_id) auto
next
  show "map_sum id (\<lambda>(e, h, b). (e, list h, call_FieldFunc h (BinField (CHR ''J'') 1 6) 0))
        (loadTable two_field_header (buffered two_field_bytes) True)
      = Inr (None, [Some (BinField (CHR ''I'') 3 0), Some (BinField (CHR ''J'') 1 6)], Inr (VInt32 7))"
    using two_field_facts(1)
    by (cases "loadTable two_field_header (buffered two_field_bytes) True") auto
next
  show "row_offset two_field_header 1 = 6" by (rule two_field_facts(2))
qed

text \<open>The theorem at the second field of the table \<open>3I\<close>, \<open>1J\<close>.\<close>

theorem binary_field_offsets_witness:
  "map_sum id (\<lambda>(e, h, b). (e, length (list h), list h ! 1))
        (loadTable two_field_header (buffered two_field_bytes) True)
      = Inr (None, 2, Some (BinField (field_code (tform two_field_header 1))
                (field_repeat (tform two_field_header 1)) (wrap64 (row_offset two_field_header 1))))
   \<and> field_repeat (tform two_field_header 1) = 1
   \<and> field_code (tform two_field_header 1) = CHR ''J''
   \<and> row_offset two_field_header 1 = 6 \<and> wrap64 (row_offset two_field_header 1) = 6"
proof -
  note f = two_field_facts
  from f(1) obtain e h b
    where l: "loadTable two_field_header (buffered two_field_bytes) True = Inr (e, h, b)"
    by (cases "loadTable two_field_header (buffered two_field_bytes) True") auto
  from f(1) have e: "e = None" and li: "list h = [Some (BinField (CHR ''I'') 3 0), Some (BinField (CHR ''J'') 1 6)]"
    by (simp_all add: l)
  have r: "field_repeat (tform two_field_header 1) > 0" "(1 :: nat) < length (list h)"
    "row_offset two_field_header 1 < 2 ^ 63"
    using f by (simp_all add: li)
  from binary_field_offsets l [unfolded e] r(1,2)
  have a: "list h ! 1 = Some (BinField (field_code (tform two_field_header 1))
      (field_repeat (tform two_field_header 1)) (wrap64 (row_offset two_field_header 1)))"
    by blast
  from binary_field_offsets r(3)
  have w: "wrap64 (row_offset two_field_header 1) = row_offset two_field_header 1"
    by blast
  from a w f(2,5,6) show ?thesis by (simp add: l e li)
qed

text \<open>
  C8. A field \<open>-5I\<close> has the repeat count -5 and the element size 2, and is skipped: the
  field \<open>1J\<close> after it has the offset 0, where the sum of \<open>repeat * element_size\<close> over
  the fields before it is -10.
\<close>

theorem negative_repeat_takes_no_bytes:
  "map_sum id (\<lambda>(e, h, b). (e, list h, call_FieldFunc h (BinField (CHR ''J'') 1 0) 0))
      (loadTable negative_repeat_header (buffered one_field_bytes) True)
   = Inr (None, [None, Some (BinField (CHR ''J'') 1 0)], Inr (VInt32 7))
   \<and> field_repeat (tform negative_repeat_header 0) = - 5
   \<and> element_size (field_code (tform negative_repeat_header 0)) = 2
   \<and> declared_offset negative_repeat_header 1 = - 10"
  using negative_repeat_facts
  by (cases "loadTable negative_repeat_header (buffered one_field_bytes) True") auto

text \<open>
  C10, amended. A column of a binary table whose repeat count is 0 (or negative) gets no
  accessor: its entry of the index list stays nil, and \<^verbatim>\<open>Field\<close> with its index returns
  that nil entry. If no column with a positive repeat count has the same name, the name
  is not in the name map, and \<^verbatim>\<open>Field\<close> with the name returns the null accessor, which
  yields nil for every row.
\<close>

theorem skipped_column_has_no_accessor:
  "\<forall>h b err h' b' i. loadTable h b True = Inr (err, h', b') \<and> i < length (list h')
       \<and> field_repeat (tform h i) \<le> 0 \<longrightarrow>
     list h' ! i = None \<and> Field h' (ColInt (int i)) = None
     \<and> (\<forall>nm. ttype h i = Some nm
           \<and> \<not> (\<exists>k. k < length (list h') \<and> field_repeat (tform h k) > 0 \<and> ttype h k = Some nm) \<longrightarrow>
         fieldmap h' nm = None \<and> Field h' (ColString nm) = Some NullField
         \<and> (\<forall>row. call_FieldFunc h' NullField row = Inr VNil))"
proof (intro allI impI)
  fix h b err h' b' i
  assume a: "loadTable h b True = Inr (err, h', b') \<and> i < length (list h')
       \<and> field_repeat (tform h i) \<le> 0"
  then obtain tf where tf: "as_int (Keys h ''TFIELDS'') = Some tf" "length (list h') = nat tf"
    using loadTable_bin_length [of h b err h' b'] by auto
  with a have i: "int i < tf" by auto
  from a have lt: "loadTable h b True = Inr (err, h', b')" by simp
  from loadTable_bin_layout(2) [OF lt tf(1) i] a
  have n: "list h' ! i = None" by auto
  with a have f: "Field h' (ColInt (int i)) = None" by (simp add: Field_def)
  have nm: "fieldmap h' nm = None \<and> Field h' (ColString nm) = Some NullField
         \<and> (\<forall>row. call_FieldFunc h' NullField row = Inr VNil)"
    if u: "ttype h i = Some nm
           \<and> \<not> (\<exists>k. k < length (list h') \<and> field_repeat (tform h k) > 0 \<and> ttype h k = Some nm)"
    for nm
  proof -
    have "fieldmap h' nm = None"
    proof (rule ccontr)
      assume "fieldmap h' nm \<noteq> None"
      from loadTable_bin_names [OF lt tf(1) this] obtain k
        where "int k < tf" "field_repeat (tform h k) > 0" "ttype h k = Some nm" by auto
      with u tf show False by auto
    qed
    then show ?thesis by (simp add: Field_def call_FieldFunc_def)
  qed
  from n f nm show "list h' ! i = None \<and> Field h' (ColInt (int i)) = None
     \<and> (\<forall>nm. ttype h i = Some nm
           \<and> \<not> (\<exists>k. k < length (list h') \<and> field_repeat (tform h k) > 0 \<and> ttype h k = Some nm) \<longrightarrow>
         fieldmap h' nm = None \<and> Field h' (ColString nm) = Some NullField
         \<and> (\<forall>row. call_FieldFunc h' NullField row = Inr VNil))"
    by blast
qed

text \<open>The theorem at the column \<open>0J\<close> named \<open>X\<close>, followed by a column \<open>1J\<close> named \<open>Y\<close>.\<close>

theorem skipped_column_has_no_accessor_witness:
  "map_sum id (\<lambda>(e, h, b). (length (list h), list h ! 0, Field h (ColInt 0), fieldmap h ''X'',
        Field h (ColString ''X''), call_FieldFunc h NullField 0))
      (loadTable zero_repeat_header (buffered one_field_bytes) True)
   = Inr (2, None, None, None, Some NullField, Inr VNil)
   \<and> field_repeat (tform zero_repeat_header 0) = 0 \<and> ttype zero_repeat_header 0 = Some ''X''
   \<and> field_repeat (tform zero_repeat_header 1) = 1 \<and> ttype zero_repeat_header 1 = Some ''Y''"
proof -
  note f = zero_repeat_facts
  from f(1) obtain e h b
    where l: "loadTable zero_repeat_header (buffered one_field_bytes) True = Inr (e, h, b)"
    by (cases "loadTable zero_repeat_header (buffered one_field_bytes) True") auto
  from f(1) have li: "list h = [None, Some (BinField (CHR ''J'') 1 0)]"
    by (simp add: l)
  have r: "(0 :: nat) < length (list h)" "field_repeat (tform zero_repeat_header 0) \<le> 0"
    by (simp_all add: li f)
  have u: "\<not> (\<exists>k. k < length (list h) \<and> field_repeat (tform zero_repeat_header k) > 0
             \<and> ttype zero_repeat_header k = Some ''X'')"
  proof
    assume "\<exists>k. k < length (list h) \<and> field_repeat (tform zero_repeat_header k) > 0
             \<and> ttype zero_repeat_header k = Some ''X''"
    then obtain k where k: "k < length (list h)" "field_repeat (tform zero_repeat_header k) > 0"
      "ttype zero_repeat_header k = Some ''X''" by auto
    from k(1) have "k = 0 \<or> k = 1" by (auto simp: li)
    with k(2,3) f(2,5) show False by auto
  qed
  from skipped_column_has_no_accessor l r
  have a: "list h ! 0 = None \<and> Field h (ColInt (int 0)) = None
     \<and> (\<forall>nm. ttype zero_repeat_header 0 = Some nm
           \<and> \<not> (\<exists>k. k < length (list h) \<and> field_repeat (tform zero_repeat_header k) > 0
                 \<and> ttype zero_repeat_header k = Some nm) \<longrightarrow>
         fieldmap h nm = None \<and> Field h (ColString nm) = Some NullField
         \<and> (\<forall>row. call_FieldFunc h NullField row = Inr VNil))"
    by blast
  with f(4) u have "fieldmap h ''X'' = None \<and> Field h (ColString ''X'') = Some NullField
         \<and> call_FieldFunc h NullField 0 = Inr VNil"
    by blast
  with a f(2-5) show ?thesis by (simp add: l li)
qed

text \<open>
  C10. When the column \<open>0J\<close> named \<open>X\<close> is followed by a column \<open>1J\<close> with the same name,
  the name is in the name map and \<^verbatim>\<open>Field\<close> with the name returns the accessor of the
  second column, which yields its value 7.
\<close>

theorem shared_name_is_registered:
  "map_sum id (\<lambda>(e, h, b). (e, list h, fieldmap h ''X'', Field h (ColString ''X''), Field h (ColInt 0),
        call_FieldFunc h (BinField (CHR ''J'') 1 0) 0))
      (loadTable duplicate_name_header (buffered one_field_bytes) True)
   = Inr (None, [None, Some (BinField (CHR ''J'') 1 0)], Some (BinField (CHR ''J'') 1 0),
          Some (BinField (CHR ''J'') 1 0), None, Inr (VInt32 7))
   \<and> field_repeat (tform duplicate_name_header 0) = 0
   \<and> ttype duplicate_name_header 0 = Some ''X''"
  using duplicate_name_facts
  by (cases "loadTable duplicate_name_header (buffered one_field_bytes) True") auto


subsection \<open>Statistics\<close>

text \<open>
  C6. \<^verbatim>\<open>Stats\<close> compares every integer pixel with the field \<open>blank\<close>, which is 0 when the
  header has no key \<open>BLANK\<close>: on the image of the pixels 0, 5 and 7 without that key,
  where \<^verbatim>\<open>Blank\<close> reports no pixel as blank, it returns the minimum 5 and the maximum 7.
  On the image of the single pixel 5 it returns 0 and 0: the product of the axes is 1.
\<close>

theorem Stats_skips_zero_without_BLANK:
  "map_sum id (\<lambda>(e, h, b). (Keys h ''BLANK'', map (call_IntAt h) [[0, 0], [1, 0], [2, 0]],
        map (call_Blank h) [[0, 0], [1, 0], [2, 0]], Stats h))
      (loadData image_3x1_header (buffered image_3x1_bytes))
   = Inr (None, [Inr 0, Inr 5, Inr 7], [Inr False, Inr False, Inr False], Inr (Fin 5, Fin 7))
   \<and> map_sum id (\<lambda>(e, h, b). (call_IntAt h [0, 0], call_Blank h [0, 0], Stats h))
      (loadData image_1x1_header (buffered image_1x1_bytes))
   = Inr (Inr 5, Inr False, Inr (Fin 0, Fin 0))"
  by code_simp

subsection \<open>Header blocks\<close>

lemma header_cards_length:
  "well_formed_cards cs \<Longrightarrow> length (header_cards cs) = 36"
  by (simp add: header_cards_def well_formed_cards_def)

lemma header_cards_80:
  "well_formed_cards cs \<Longrightarrow> c \<in> set (header_cards cs) \<Longrightarrow> length c = 80"
  by (auto simp: header_cards_def well_formed_cards_def pad80_def list_all_iff)

lemma concat_length_uniform:
  "(\<And>c. c \<in> set cs \<Longrightarrow> length c = n) \<Longrightarrow> length (concat cs) = n * length cs"
  by (induction cs) auto

lemma header_block_length: "well_formed_cards cs \<Longrightarrow> length (header_block cs) = 2880"
  using concat_length_uniform [of "header_cards cs" 80] header_cards_80 [of cs]
  by (simp add: header_block_def header_cards_length)

lemma take_drop_concat:
  "(\<And>c. c \<in> set cs \<Longrightarrow> length c = n) \<Longrightarrow> i < length cs \<Longrightarrow>
     take n (drop (i * n) (concat cs)) = cs ! i"
proof (induction cs arbitrary: i)
  case Nil
  then show ?case by simp
next
  case (Cons c cs)
  show ?case
  proof (cases i)
    case 0
    with Cons.prems show ?thesis by simp
  next
    case (Suc j)
    with Cons.prems have "take n (drop (j * n) (concat cs)) = cs ! j"
      by (intro Cons.IH) auto
    with Cons.prems Suc show ?thesis by simp
  qed
qed

lemma foldl_nth_upt:
  "foldl (\<lambda>K i. f (cs ! i) K) K [0..<length cs] = foldl (\<lambda>K c. f c K) K cs"
proof -
  have "foldl (\<lambda>K c. f c K) K (map ((!) cs) [0..<length cs]) = foldl (\<lambda>K i. f (cs ! i) K) K [0..<length cs]"
    by (simp add: foldl_map)
  then show ?thesis by (simp add: map_nth)
qed

lemma parse_lines_concat:
  assumes len: "length cs = 36" and w: "\<And>c. c \<in> set cs \<Longrightarrow> length c = 80"
  shows "parse_lines (concat cs) K = foldl (\<lambda>K c. parse_card c K) K cs"
proof -
  have "foldl (\<lambda>K i. parse_card (take 80 (drop (i * 80) (concat cs))) K) K [0..<length cs]
      = foldl (\<lambda>K i. parse_card (cs ! i) K) K [0..<length cs]"
    by (rule foldl_cong) (auto simp: take_drop_concat [OF w])
  then show ?thesis
    by (simp add: parse_lines_def len foldl_nth_upt [of parse_card cs K, unfolded len])
qed

lemma parse_lines_block:
  "well_formed_cards cs \<Longrightarrow> parse_lines (header_block cs) Map.empty = parse_cards cs"
  unfolding header_block_def parse_cards_def
  by (rule parse_lines_concat) (auto simp: header_cards_length header_cards_80)

lemma NewReader_sel:
  "eof (NewReader src) = False" "length (buf (NewReader src)) = 2880"
  "reader (NewReader src) = Some src"
  by (simp_all add: NewReader_def)

lemma new_Unit_sel:
  "Keys (new_Unit K) = K" "Naxis (new_Unit K) = []" "Data (new_Unit K) = NoData"
  "list (new_Unit K) = []" "class (new_Unit K) = []" "blank (new_Unit K) = 0"
  by (simp_all add: new_Unit_def)

lemma NextPage_block:
  assumes "length (buf b) = 2880" "reader b = Some (blk @ rest)" "length blk = 2880"
  shows "NextPage b = Inr (blk, None, b\<lparr>buf := blk, right := 2880, left := 2880, reader := Some rest\<rparr>)"
proof -
  from assms(3) have "blk \<noteq> []" by auto
  with assms show ?thesis by (simp add: NextPage_def Let_def)
qed

lemma NewHeader_block:
  assumes wf: "well_formed_cards cs"
    and buf: "length (buf b) = 2880"
    and rd: "reader b = Some (header_block cs @ rest)"
    and e: "parse_cards cs ''END'' \<noteq> None"
    and ns: "collect_Naxis (parse_cards cs) = Inr ns"
  shows "NewHeader b = Inr ((new_Unit (parse_cards cs))\<lparr>Naxis := ns\<rparr>, None,
           b\<lparr>buf := header_block cs, right := 2880, left := 2880, reader := Some rest\<rparr>)"
proof -
  have np: "NextPage b = Inr (header_block cs, None,
      b\<lparr>buf := header_block cs, right := 2880, left := 2880, reader := Some rest\<rparr>)"
    by (rule NextPage_block [OF buf rd header_block_length [OF wf]])
  show ?thesis
    unfolding NewHeader_def
    by (subst NewHeader_loop.simps)
      (use e in \<open>simp add: np header_block_length [OF wf] parse_lines_block [OF wf] new_Unit_def ns Let_def\<close>)
qed

lemma NewHeader_EOF:
  assumes "reader b = Some []"
  shows "NewHeader b = Inr (new_Unit Map.empty, Some EOF, b\<lparr>right := 0, left := 0\<rparr>)"
  unfolding NewHeader_def
  by (subst NewHeader_loop.simps) (simp add: NextPage_def assms)

lemma bad_primary_facts:
  "well_formed_cards bad_primary_cards"
  "parse_cards bad_primary_cards ''END'' = Some VNil"
  "parse_cards bad_primary_cards ''SIMPLE'' = Some (VBool True)"
  "collect_Naxis (parse_cards bad_primary_cards) = Inr []"
  "verifyPrimary ((new_Unit (parse_cards bad_primary_cards))\<lparr>Naxis := []\<rparr>)
     = Some (Errorf ''No BITPIX in the primary header'')"
  by code_simp+

lemma Open_bad_primary:
  "Open (header_block bad_primary_cards)
     = Inr ([(new_Unit (parse_cards bad_primary_cards))\<lparr>Naxis := []\<rparr>], None)"
proof -
  have nh: "NewHeader (NewReader (header_block bad_primary_cards))
      = Inr ((new_Unit (parse_cards bad_primary_cards))\<lparr>Naxis := []\<rparr>, None,
          (NewReader (header_block bad_primary_cards))\<lparr>buf := header_block bad_primary_cards,
             right := 2880, left := 2880, reader := Some []\<rparr>)"
    by (rule NewHeader_block [where rest = "[]"]) (simp_all add: bad_primary_facts NewReader_sel)
  show ?thesis
    unfolding Open_def
    by (subst Open_loop.simps) (simp add: nh IsEOF_def NewReader_sel bad_primary_facts new_Unit_sel)
qed

lemma minimal_primary_facts:
  "well_formed_cards minimal_primary_cards"
  "parse_cards minimal_primary_cards ''END'' = Some VNil"
  "parse_cards minimal_primary_cards ''SIMPLE'' = Some (VBool True)"
  "parse_cards minimal_primary_cards ''FOO'' = None"
  "collect_Naxis (parse_cards minimal_primary_cards) = Inr []"
  "verifyPrimary ((new_Unit (parse_cards minimal_primary_cards))\<lparr>Naxis := []\<rparr>) = None"
  by code_simp+

lemma unknown_facts:
  "well_formed_cards unknown_cards"
  "parse_cards unknown_cards ''END'' = Some VNil"
  "parse_cards unknown_cards ''SIMPLE'' = None"
  "parse_cards unknown_cards ''XTENSION'' = None"
  "parse_cards unknown_cards ''FOO'' = Some (VInt 1)"
  "collect_Naxis (parse_cards unknown_cards) = Inr []"
  by code_simp+

lemma open_string_facts:
  "well_formed_cards open_string_cards"
  "parse_cards open_string_cards ''END'' = Some VNil"
  "parse_cards open_string_cards ''SIMPLE'' = Some (VBool True)"
  "parse_cards open_string_cards ''OBJECT'' = None"
  "collect_Naxis (parse_cards open_string_cards) = Inr []"
  "processString (quote # ''M31'') = Inl (Errorf ''String ends prematurely'')"
  by code_simp+

lemma bad_table_facts:
  "well_formed_cards bad_table_cards"
  "parse_cards bad_table_cards ''END'' = Some VNil"
  "parse_cards bad_table_cards ''SIMPLE'' = None"
  "parse_cards bad_table_cards ''XTENSION'' = Some (VString ''BINTABLE'')"
  "parse_cards bad_table_cards ''TFIELDS'' = Some (VInt 1)"
  "parse_cards bad_table_cards (Nth ''TFORM'' 1) = Some (VString ''123'')"
  "IndexAny ''123'' ''ABCDEIJKLMPQX'' = None"
  "collect_Naxis (parse_cards bad_table_cards) = Inr [0, 0]"
  "verifyExtension ((new_Unit (parse_cards bad_table_cards))\<lparr>Naxis := [0, 0]\<rparr>) = None"
  by code_simp+

lemma Read_zero:
  "0 \<le> left b \<Longrightarrow> left b \<le> right b \<Longrightarrow> right b \<le> int (length (buf b)) \<Longrightarrow> Read b 0 = Inr ([], b)"
  unfolding Read_def by (subst Read_loop.simps) simp

lemma NewHeader_open_string:
  "NewHeader (NewReader (header_block open_string_cards))
     = Inr ((new_Unit (parse_cards open_string_cards))\<lparr>Naxis := []\<rparr>, None,
          (NewReader (header_block open_string_cards))\<lparr>buf := header_block open_string_cards,
             right := 2880, left := 2880, reader := Some []\<rparr>)"
  by (rule NewHeader_block [where rest = "[]"]) (simp_all add: open_string_facts NewReader_sel)

lemma Open_unknown_second:
  "Open (header_block minimal_primary_cards @ header_block unknown_cards)
     = Inr ([(new_Unit (parse_cards minimal_primary_cards))\<lparr>Naxis := [], class := ''SIMPLE''\<rparr>,
             (new_Unit (parse_cards unknown_cards))\<lparr>Naxis := []\<rparr>], None)"
proof -
  let ?s = "header_block minimal_primary_cards @ header_block unknown_cards"
  let ?b1 = "(NewReader ?s)\<lparr>buf := header_block minimal_primary_cards,
             right := 2880, left := 2880, reader := Some (header_block unknown_cards)\<rparr>"
  have nh1: "NewHeader (NewReader ?s)
      = Inr ((new_Unit (parse_cards minimal_primary_cards))\<lparr>Naxis := []\<rparr>, None, ?b1)"
    by (rule NewHeader_block) (simp_all add: minimal_primary_facts NewReader_sel)
  have nh2: "NewHeader ?b1
      = Inr ((new_Unit (parse_cards unknown_cards))\<lparr>Naxis := []\<rparr>, None,
             ?b1\<lparr>buf := header_block unknown_cards, right := 2880, left := 2880, reader := Some []\<rparr>)"
    by (rule NewHeader_block [where rest = "[]"])
      (simp_all add: unknown_facts minimal_primary_facts NewReader_sel header_block_length)
  have step2: "Open_loop ?b1 fits = Inr (fits @ [(new_Unit (parse_cards unknown_cards))\<lparr>Naxis := []\<rparr>])" for fits
    by (subst Open_loop.simps) (simp add: nh2 IsEOF_def NewReader_sel unknown_facts new_Unit_sel)
  show ?thesis
    unfolding Open_def
    by (subst Open_loop.simps)
      (simp add: nh1 step2 IsEOF_def NewReader_sel minimal_primary_facts new_Unit_sel)
qed

subsection \<open>Headers and the loop of \<^verbatim>\<open>Open\<close>\<close>

lemma still_open_error:
  "still_open body \<Longrightarrow> processString_loop 1 body out = Inl (Errorf ''String ends prematurely'')"
  by (induction body arbitrary: out rule: still_open.induct) (auto split: if_splits)

lemma open_string_card:
  assumes "take 2 (drop 8 line) = ''= ''" "TrimSpace (drop 10 line) = quote # body" "still_open body"
  shows "parse_card line K = K"
  using assms still_open_error [of body "[]"]
  by (simp add: parse_card_def Let_def processString_def)

text \<open>
  C3, amended. A quoted string that is still open when the literal ends makes
  \<^verbatim>\<open>processString\<close> return the error \<open>String ends prematurely\<close>, and the loop body of
  \<^verbatim>\<open>NewHeader\<close> discards that error: a card with the value indicator whose trimmed
  literal is such a string leaves the map of keys as it was, and the loop over the 36
  cards of a block goes on with the next card, so the block is parsed as if the card were
  not there.
\<close>

theorem open_string_is_dropped:
  "(\<forall>body. still_open body \<longrightarrow>
       processString (quote # body) = Inl (Errorf ''String ends prematurely''))
   \<and> (\<forall>line K body. take 2 (drop 8 line) = ''= '' \<and> TrimSpace (drop 10 line) = quote # body
         \<and> still_open body \<longrightarrow> parse_card line K = K)
   \<and> (\<forall>cs1 line cs2 K body. length (cs1 @ line # cs2) = 36
         \<and> list_all (\<lambda>c. length c = 80) (cs1 @ line # cs2)
         \<and> take 2 (drop 8 line) = ''= '' \<and> TrimSpace (drop 10 line) = quote # body
         \<and> still_open body \<longrightarrow>
       parse_lines (concat (cs1 @ line # cs2)) K = foldl (\<lambda>K c. parse_card c K) K (cs1 @ cs2))"
proof (intro conjI allI impI)
  fix body
  assume "still_open body"
  then show "processString (quote # body) = Inl (Errorf ''String ends prematurely'')"
    using still_open_error [of body "[]"] by (simp add: processString_def)
next
  fix line K body
  assume "take 2 (drop 8 line) = ''= '' \<and> TrimSpace (drop 10 line) = quote # body \<and> still_open body"
  then show "parse_card line K = K" by (simp add: open_string_card)
next
  fix cs1 line cs2 K body
  assume a: "length (cs1 @ line # cs2) = 36 \<and> list_all (\<lambda>c. length c = 80) (cs1 @ line # cs2)
         \<and> take 2 (drop 8 line) = ''= '' \<and> TrimSpace (drop 10 line) = quote # body
         \<and> still_open body"
  then have w: "\<And>c. c \<in> set (cs1 @ line # cs2) \<Longrightarrow> length c = 80"
    by (auto simp: list_all_iff)
  from a have len: "length (cs1 @ line # cs2) = 36" by simp
  from a have skip: "parse_card line K' = K'" for K' by (simp add: open_string_card)
  have "parse_lines (concat (cs1 @ line # cs2)) K = foldl (\<lambda>K c. parse_card c K) K (cs1 @ line # cs2)"
    by (rule parse_lines_concat [OF len w])
  then show "parse_lines (concat (cs1 @ line # cs2)) K = foldl (\<lambda>K c. parse_card c K) K (cs1 @ cs2)"
    by (simp add: skip)
qed

lemma open_card_facts:
  "take 2 (drop 8 (pad80 (''OBJECT  = '' @ [quote] @ ''M31''))) = ''= ''"
  "TrimSpace (drop 10 (pad80 (''OBJECT  = '' @ [quote] @ ''M31''))) = quote # ''M31''"
  "still_open ''M31''"
  "header_cards open_string_cards
     = [pad80 ''SIMPLE  =                    T''] @ pad80 (''OBJECT  = '' @ [quote] @ ''M31'')
         # (pad80 ''END'' # replicate 33 (replicate 80 (CHR '' '')))"
  "length (header_cards open_string_cards) = 36"
  "list_all (\<lambda>c. length c = 80) (header_cards open_string_cards)"
  "foldl (\<lambda>K c. parse_card c K) Map.empty
      ([pad80 ''SIMPLE  =                    T''] @ (pad80 ''END'' # replicate 33 (replicate 80 (CHR '' ''))))
     ''OBJECT'' = None"
  by code_simp+

text \<open>The theorem at the card \<open>OBJECT  = 'M31\<close> and at the block that holds it.\<close>

theorem open_string_is_dropped_witness:
  "still_open ''M31''
   \<and> processString (quote # ''M31'') = Inl (Errorf ''String ends prematurely'')
   \<and> take 2 (drop 8 (pad80 (''OBJECT  = '' @ [quote] @ ''M31''))) = ''= ''
   \<and> TrimSpace (drop 10 (pad80 (''OBJECT  = '' @ [quote] @ ''M31''))) = quote # ''M31''
   \<and> parse_card (pad80 (''OBJECT  = '' @ [quote] @ ''M31'')) [''SIMPLE'' \<mapsto> VBool True]
       = [''SIMPLE'' \<mapsto> VBool True]
   \<and> length (header_cards open_string_cards) = 36
   \<and> list_all (\<lambda>c. length c = 80) (header_cards open_string_cards)
   \<and> parse_lines (header_block open_string_cards) Map.empty
       = foldl (\<lambda>K c. parse_card c K) Map.empty
           (pad80 ''SIMPLE  =                    T'' # pad80 ''END'' # replicate 33 (replicate 80 (CHR '' '')))
   \<and> parse_lines (header_block open_string_cards) Map.empty ''OBJECT'' = None"
proof -
  note f = open_card_facts
  from open_string_is_dropped f(3)
  have a: "processString (quote # ''M31'') = Inl (Errorf ''String ends prematurely'')"
    by blast
  from open_string_is_dropped f(1,2,3)
  have b: "parse_card (pad80 (''OBJECT  = '' @ [quote] @ ''M31'')) [''SIMPLE'' \<mapsto> VBool True]
       = [''SIMPLE'' \<mapsto> VBool True]"
    by blast
  have "parse_lines (concat ([pad80 ''SIMPLE  =                    T''] @ pad80 (''OBJECT  = '' @ [quote] @ ''M31'')
         # (pad80 ''END'' # replicate 33 (replicate 80 (CHR '' ''))))) Map.empty
      = foldl (\<lambda>K c. parse_card c K) Map.empty
          ([pad80 ''SIMPLE  =                    T''] @ (pad80 ''END'' # replicate 33 (replicate 80 (CHR '' ''))))"
    using open_string_is_dropped f(1,2,3) f(5,6) [unfolded f(4)] by blast
  then have c: "parse_lines (header_block open_string_cards) Map.empty
       = foldl (\<lambda>K c. parse_card c K) Map.empty
           ([pad80 ''SIMPLE  =                    T''] @ (pad80 ''END'' # replicate 33 (replicate 80 (CHR '' ''))))"
    by (simp only: header_block_def f(4))
  have d: "parse_lines (header_block open_string_cards) Map.empty ''OBJECT'' = None"
    by (simp only: c f(7))
  from a b c d f show ?thesis by simp
qed

text \<open>
  C3. On a header with the card \<open>OBJECT  = 'M31\<close>, whose string is left open,
  \<^verbatim>\<open>NewHeader\<close> succeeds with no error and without the key \<open>OBJECT\<close>.
\<close>

theorem open_string_key_is_dropped:
  "map_sum id (\<lambda>(h, err, b). (err, Keys h ''OBJECT'', Keys h ''SIMPLE'', Keys h ''END''))
     (NewHeader (NewReader (header_block open_string_cards)))
   = Inr (None, None, Some (VBool True), Some VNil)"
  by (simp add: NewHeader_open_string new_Unit_sel open_string_facts)

text \<open>
  C4, amended. When the loop of \<^verbatim>\<open>Open\<close> reads, after any units \<open>fits\<close> collected so
  far, a header that \<^verbatim>\<open>NewHeader\<close> returns without error and that has neither a SIMPLE
  key nor a string XTENSION key, the loop ends there and its result is \<open>fits\<close> followed
  by the unit of that header: the unit was appended as soon as its header was read.
  \<^verbatim>\<open>Open\<close> returns the result of the loop started on a new reader with no units, with a
  nil error.
\<close>

theorem Open_loop_appends_unknown_header:
  "\<forall>b fits h b1. \<not> IsEOF b \<and> NewHeader b = Inr (h, None, b1)
       \<and> Keys h ''SIMPLE'' = None \<and> as_string (Keys h ''XTENSION'') = None
     \<longrightarrow> Open_loop b fits = Inr (fits @ [h])"
proof (intro allI impI)
  fix b fits h b1
  assume a: "\<not> IsEOF b \<and> NewHeader b = Inr (h, None, b1)
       \<and> Keys h ''SIMPLE'' = None \<and> as_string (Keys h ''XTENSION'') = None"
  show "Open_loop b fits = Inr (fits @ [h])"
    by (subst Open_loop.simps) (simp add: a)
qed

lemma NewHeader_unknown_second:
  "NewHeader ((NewReader (header_block minimal_primary_cards @ header_block unknown_cards))
     \<lparr>buf := header_block minimal_primary_cards, right := 2880, left := 2880,
      reader := Some (header_block unknown_cards)\<rparr>)
     = Inr ((new_Unit (parse_cards unknown_cards))\<lparr>Naxis := []\<rparr>, None,
         (NewReader (header_block minimal_primary_cards @ header_block unknown_cards))
     \<lparr>buf := header_block minimal_primary_cards, right := 2880, left := 2880,
      reader := Some (header_block unknown_cards)\<rparr>\<lparr>buf := header_block unknown_cards, right := 2880, left := 2880, reader := Some []\<rparr>)"
  by (rule NewHeader_block [where rest = "[]"])
    (simp_all add: unknown_facts minimal_primary_facts NewReader_sel header_block_length)

text \<open>
  The theorem on the stream of the minimal primary header and the header \<open>FOO = 1\<close>, at
  the second turn of the loop: the reader after the primary header, and the primary unit
  collected.
\<close>

theorem Open_loop_appends_unknown_header_witness:
  "\<not> IsEOF ((NewReader (header_block minimal_primary_cards @ header_block unknown_cards))
        \<lparr>buf := header_block minimal_primary_cards, right := 2880, left := 2880,
         reader := Some (header_block unknown_cards)\<rparr>)
   \<and> map_sum id (\<lambda>(h, err, b). (err, Keys h ''SIMPLE'', as_string (Keys h ''XTENSION''), Keys h ''FOO''))
       (NewHeader ((NewReader (header_block minimal_primary_cards @ header_block unknown_cards))
          \<lparr>buf := header_block minimal_primary_cards, right := 2880, left := 2880,
           reader := Some (header_block unknown_cards)\<rparr>))
      = Inr (None, None, None, Some (VInt 1))
   \<and> map_sum id (map (\<lambda>h. (class h, Keys h ''FOO'')))
       (Open_loop ((NewReader (header_block minimal_primary_cards @ header_block unknown_cards))
          \<lparr>buf := header_block minimal_primary_cards, right := 2880, left := 2880,
           reader := Some (header_block unknown_cards)\<rparr>)
          [(new_Unit (parse_cards minimal_primary_cards))\<lparr>Naxis := [], class := ''SIMPLE''\<rparr>])
      = Inr [(''SIMPLE'', None), ([], Some (VInt 1))]"
proof -
  let ?b = "(NewReader (header_block minimal_primary_cards @ header_block unknown_cards))
        \<lparr>buf := header_block minimal_primary_cards, right := 2880, left := 2880,
         reader := Some (header_block unknown_cards)\<rparr>"
  let ?h = "(new_Unit (parse_cards unknown_cards))\<lparr>Naxis := []\<rparr>"
  have e: "\<not> IsEOF ?b" by (simp add: IsEOF_def NewReader_sel)
  have k: "Keys ?h ''SIMPLE'' = None" "as_string (Keys ?h ''XTENSION'') = None"
    "Keys ?h ''FOO'' = Some (VInt 1)"
    by (simp_all add: new_Unit_sel unknown_facts)
  from Open_loop_appends_unknown_header e NewHeader_unknown_second k(1,2)
  have "Open_loop ?b [(new_Unit (parse_cards minimal_primary_cards))\<lparr>Naxis := [], class := ''SIMPLE''\<rparr>]
      = Inr ([(new_Unit (parse_cards minimal_primary_cards))\<lparr>Naxis := [], class := ''SIMPLE''\<rparr>] @ [?h])"
    by blast
  with e k show ?thesis
    by (simp add: NewHeader_unknown_second new_Unit_sel minimal_primary_facts)
qed


text \<open>
  C4. On that stream the result has two units, and the second one carries the key
  \<open>FOO\<close> of the unknown header: the sequence is not cut at the last decoded unit.
\<close>

theorem Open_unknown_header_is_returned:
  "map_sum id (\<lambda>(fits, err). (length fits, map (\<lambda>h. Keys h ''FOO'') fits, err))
     (Open (header_block minimal_primary_cards @ header_block unknown_cards))
   = Inr (2, [None, Some (VInt 1)], None)"
  by (simp add: Open_unknown_second new_Unit_sel unknown_facts minimal_primary_facts)

lemma Open_bad_table:
  "Open (header_block minimal_primary_cards @ header_block bad_table_cards)
     = Inr ([(new_Unit (parse_cards minimal_primary_cards))\<lparr>Naxis := [], class := ''SIMPLE''\<rparr>,
             (new_Unit (parse_cards bad_table_cards))\<lparr>Naxis := [0, 0], class := ''BINTABLE'',
                list := [None], fieldmap := Map.empty, Data := Bytes []\<rparr>], None)"
  and loadTable_bad_table:
  "loadTable ((new_Unit (parse_cards bad_table_cards))\<lparr>Naxis := [0, 0], class := ''BINTABLE''\<rparr>)
      ((NewReader (header_block minimal_primary_cards @ header_block bad_table_cards))
         \<lparr>buf := header_block bad_table_cards, right := 2880, left := 2880, reader := Some []\<rparr>) True
     = Inr (Some (Errorf ''TFROM has invalid format (binary)''),
            (new_Unit (parse_cards bad_table_cards))\<lparr>Naxis := [0, 0], class := ''BINTABLE'',
                list := [None], fieldmap := Map.empty, Data := Bytes []\<rparr>,
            (NewReader (header_block minimal_primary_cards @ header_block bad_table_cards))
         \<lparr>buf := header_block bad_table_cards, right := 2880, left := 2880, reader := Some []\<rparr>)"
proof -
  let ?s = "header_block minimal_primary_cards @ header_block bad_table_cards"
  let ?b1 = "(NewReader ?s)\<lparr>buf := header_block minimal_primary_cards,
             right := 2880, left := 2880, reader := Some (header_block bad_table_cards)\<rparr>"
  let ?b2 = "(NewReader ?s)\<lparr>buf := header_block bad_table_cards,
             right := 2880, left := 2880, reader := Some []\<rparr>"
  let ?h2 = "(new_Unit (parse_cards bad_table_cards))\<lparr>Naxis := [0, 0], class := ''BINTABLE'',
                list := [None], fieldmap := Map.empty, Data := Bytes []\<rparr>"
  have nh1: "NewHeader (NewReader ?s)
      = Inr ((new_Unit (parse_cards minimal_primary_cards))\<lparr>Naxis := []\<rparr>, None, ?b1)"
    by (rule NewHeader_block) (simp_all add: minimal_primary_facts NewReader_sel)
  have nh2: "NewHeader ?b1
      = Inr ((new_Unit (parse_cards bad_table_cards))\<lparr>Naxis := [0, 0]\<rparr>, None, ?b2)"
    using NewHeader_block [of bad_table_cards ?b1 "[]" "[0, 0]"]
    by (simp add: bad_table_facts minimal_primary_facts NewReader_sel header_block_length)
  have rd: "Read ?b2 0 = Inr ([], ?b2)"
    by (rule Read_zero) (simp_all add: header_block_length bad_table_facts)
  have lp: "loadTable_field True 0 ?h2 0
      = Inr (Some (Errorf ''TFROM has invalid format (binary)''), ?h2, 0)"
    by (simp add: loadTable_field_def new_Unit_sel bad_table_facts)
  show lt: "loadTable ((new_Unit (parse_cards bad_table_cards))\<lparr>Naxis := [0, 0], class := ''BINTABLE''\<rparr>) ?b2 True
      = Inr (Some (Errorf ''TFROM has invalid format (binary)''), ?h2, ?b2)"
    by (simp add: loadTable_def new_Unit_sel bad_table_facts wrap64_def rd lp)
  have nh3: "NewHeader ?b2 = Inr (new_Unit Map.empty, Some EOF, ?b2\<lparr>right := 0, left := 0\<rparr>)"
    by (rule NewHeader_EOF) simp
  have step3: "Open_loop ?b2 fits = Inr fits" for fits
    by (subst Open_loop.simps) (simp add: nh3 IsEOF_def NewReader_sel)
  have step2: "Open_loop ?b1 fits = Inr (fits @ [?h2])" for fits
    by (subst Open_loop.simps)
      (simp add: nh2 lt step3 IsEOF_def NewReader_sel bad_table_facts new_Unit_sel)
  show "Open ?s = Inr ([(new_Unit (parse_cards minimal_primary_cards))\<lparr>Naxis := [], class := ''SIMPLE''\<rparr>, ?h2], None)"
    unfolding Open_def
    by (subst Open_loop.simps)
      (simp add: nh1 step2 IsEOF_def NewReader_sel minimal_primary_facts new_Unit_sel)
qed

text \<open>
  C1. When the validation of a header or the loading of its data fails, \<^verbatim>\<open>Open\<close> does
  return the units read so far, but with a nil error. On the primary header without
  BITPIX, \<^verbatim>\<open>verifyPrimary\<close> fails and \<^verbatim>\<open>Open\<close> returns that unit and nil. On the stream
  whose binary table has a \<open>TFORM1\<close> without type code, \<^verbatim>\<open>loadTable\<close> returns an error,
  the loop goes on to the end of the stream, and \<^verbatim>\<open>Open\<close> returns both units and nil.
\<close>

theorem Open_returns_nil_error_on_failure:
  "map_sum id (\<lambda>(fits, err). (map verifyPrimary fits, err)) (Open (header_block bad_primary_cards))
     = Inr ([Some (Errorf ''No BITPIX in the primary header'')], None)
   \<and> map_sum id (\<lambda>(fits, err). (map class fits, err))
       (Open (header_block minimal_primary_cards @ header_block bad_table_cards))
     = Inr ([''SIMPLE'', ''BINTABLE''], None)
   \<and> map_sum id (\<lambda>(err, h, b). err)
       (loadTable ((new_Unit (parse_cards bad_table_cards))\<lparr>Naxis := [0, 0], class := ''BINTABLE''\<rparr>)
          ((NewReader (header_block minimal_primary_cards @ header_block bad_table_cards))
             \<lparr>buf := header_block bad_table_cards, right := 2880, left := 2880, reader := Some []\<rparr>) True)
     = Inr (Some (Errorf ''TFROM has invalid format (binary)''))"
  by (simp add: Open_bad_primary Open_bad_table loadTable_bad_table bad_primary_facts new_Unit_sel)

end
